theory Spec2Isabelle
  imports Complex_Main "HOL-Library.Multiset"
begin

section \<open>JavaScript values used by the providers\<close>

text \<open>
  Strings are lists of 8-bit characters, read as the code units U+0000..U+00FF.
  Numbers are \<open>NaN\<close>, the two infinities, or an exact rational: the value of a
  numeric literal is its mathematical value, and the rounding of that value to an
  IEEE double (and the sign of zero) is not part of the model.
\<close>

datatype jsnum = NaN | Num rat | PosInfinity | NegInfinity

text \<open>A caught exception: the name and the message of a JavaScript \<open>Error\<close>.\<close>

datatype exn = Exn string string

fun exn_toString :: "exn \<Rightarrow> string" where
  "exn_toString (Exn name msg) =
     (if name = [] then msg else if msg = [] then name else name @ '': '' @ msg)"

text \<open>What \<open>debugLog\<close> receives: a string or a caught error object.\<close>

datatype logged = LogString string | LogError exn

fun is_LogError :: "logged \<Rightarrow> bool" where
  "is_LogError (LogError e) = True"
| "is_LogError (LogString s) = False"

subsection \<open>Characters\<close>

definition is_whitespace :: "char \<Rightarrow> bool" where
  "is_whitespace c \<longleftrightarrow>
     c = CHR 0x09 \<or> c = CHR 0x0A \<or> c = CHR 0x0B \<or> c = CHR 0x0C \<or> c = CHR 0x0D \<or>
     c = CHR 0x20 \<or> c = CHR 0xA0"

definition is_line_terminator :: "char \<Rightarrow> bool" where
  "is_line_terminator c \<longleftrightarrow> c = CHR 0x0A \<or> c = CHR 0x0D"

definition is_digit :: "char \<Rightarrow> bool" where
  "is_digit c \<longleftrightarrow> c \<in> set ''0123456789''"

definition digit_val :: "char \<Rightarrow> nat" where
  "digit_val c = of_char c - 48"

definition is_hex_digit :: "char \<Rightarrow> bool" where
  "is_hex_digit c \<longleftrightarrow> is_digit c \<or> c \<in> set ''abcdef'' \<or> c \<in> set ''ABCDEF''"

definition hex_val :: "char \<Rightarrow> nat" where
  "hex_val c =
     (if is_digit c then of_char c - 48
      else if c \<in> set ''abcdef'' then of_char c - 87
      else of_char c - 55)"

text \<open>The regular expression class \<open>\w\<close>.\<close>

definition is_word_char :: "char \<Rightarrow> bool" where
  "is_word_char c \<longleftrightarrow>
     is_digit c \<or> c \<in> set ''abcdefghijklmnopqrstuvwxyz'' \<or>
     c \<in> set ''ABCDEFGHIJKLMNOPQRSTUVWXYZ'' \<or> c = CHR ''_''"

subsection \<open>String methods\<close>

fun startsWith :: "string \<Rightarrow> string \<Rightarrow> bool" where
  "startsWith s [] = True"
| "startsWith [] (p # ps) = False"
| "startsWith (c # cs) (p # ps) = (c = p \<and> startsWith cs ps)"

text \<open>\<open>s.includes(p)\<close>\<close>

fun js_includes :: "string \<Rightarrow> string \<Rightarrow> bool" where
  "js_includes [] p = (p = [])"
| "js_includes (c # cs) p = (startsWith (c # cs) p \<or> js_includes cs p)"

text \<open>\<open>s.trim()\<close>\<close>

definition js_trim :: "string \<Rightarrow> string" where
  "js_trim s = rev (dropWhile is_whitespace (rev (dropWhile is_whitespace s)))"

text \<open>
  The text that \<open>replace\<close> puts in the place of a match of a string pattern: in the
  replacement, \<open>$$\<close> stands for \<open>$\<close>, \<open>$&\<close> for the match, \<open>$\<close> with a backquote for the text
  before the match and \<open>$\<close> with an apostrophe for the text after it; any other \<open>$\<close> stands
  for itself, a string pattern having no groups.
\<close>

fun GetSubstitution :: "string \<Rightarrow> string \<Rightarrow> string \<Rightarrow> string \<Rightarrow> string" where
  "GetSubstitution matched pre post [] = []"
| "GetSubstitution matched pre post [c] = [c]"
| "GetSubstitution matched pre post (c # d # t) =
     (if c = CHR ''$'' \<and> d = CHR ''$'' then CHR ''$'' # GetSubstitution matched pre post t
      else if c = CHR ''$'' \<and> d = CHR ''&'' then matched @ GetSubstitution matched pre post t
      else if c = CHR ''$'' \<and> d = CHR 0x60 then pre @ GetSubstitution matched pre post t
      else if c = CHR ''$'' \<and> d = CHR 0x27 then post @ GetSubstitution matched pre post t
      else c # GetSubstitution matched pre post (d # t))"

text \<open>
  \<open>s.replace(p, r)\<close> with a string pattern: the first occurrence only. \<open>pre\<close> is the text
  already passed.
\<close>

fun replace_from :: "string \<Rightarrow> string \<Rightarrow> string \<Rightarrow> string \<Rightarrow> string" where
  "replace_from pre [] p r = (if p = [] then GetSubstitution p pre [] r else [])"
| "replace_from pre (c # cs) p r =
     (if startsWith (c # cs) p
      then GetSubstitution p pre (drop (length p) (c # cs)) r @ drop (length p) (c # cs)
      else c # replace_from (pre @ [c]) cs p r)"

definition js_replace :: "string \<Rightarrow> string \<Rightarrow> string \<Rightarrow> string" where
  [simp]: "js_replace s p r = replace_from [] s p r"

text \<open>
  \<open>s.split(sep)\<close> for a non-empty separator: the pieces between the occurrences of
  \<open>sep\<close>, scanned from the left; the result always has a first piece.
\<close>

fun split_acc :: "string \<Rightarrow> string \<Rightarrow> string \<Rightarrow> string list" where
  "split_acc sep cur [] = [cur]"
| "split_acc sep cur (c # cs) =
     (if sep \<noteq> [] \<and> startsWith (c # cs) sep
      then cur # split_acc sep [] (drop (length sep) (c # cs))
      else split_acc sep (cur @ [c]) cs)"

definition js_split :: "string \<Rightarrow> string \<Rightarrow> string list" where
  "js_split s sep = split_acc sep [] s"

text \<open>\<open>xs[i]\<close> on an array: \<open>undefined\<close> past the end.\<close>

definition at_index :: "'a list \<Rightarrow> nat \<Rightarrow> 'a option" where
  "at_index xs i = (if i < length xs then Some (xs ! i) else None)"

subsection \<open>Numbers\<close>

fun digit_char :: "nat \<Rightarrow> char" where
  "digit_char n = char_of (48 + n)"

text \<open>\<open>String(n)\<close> for a non-negative integer.\<close>

fun Number_toString :: "nat \<Rightarrow> string" where
  "Number_toString n =
     (if n < 10 then [digit_char n] else Number_toString (n div 10) @ [digit_char (n mod 10)])"

declare Number_toString.simps [simp del]

definition Int_toString :: "int \<Rightarrow> string" where
  "Int_toString i = (if i < 0 then CHR ''-'' # Number_toString (nat (- i)) else Number_toString (nat i))"

text \<open>The value of a digit string in a radix, most significant digit first.\<close>

definition digits_value :: "nat \<Rightarrow> (char \<Rightarrow> nat) \<Rightarrow> string \<Rightarrow> nat" where
  "digits_value radix val ds = foldl (\<lambda>acc c. acc * radix + val c) 0 ds"

text \<open>
  \<open>parseInt(s)\<close> with no radix: leading white space is skipped, then a sign, then a
  \<open>0x\<close> prefix selects radix 16; the longest run of digits is read, and no digit at
  all gives \<open>NaN\<close>.
\<close>

definition parseInt :: "string \<Rightarrow> jsnum" where
  "parseInt s =
     (let t = dropWhile is_whitespace s;
          neg = startsWith t ''-'';
          u = (if startsWith t ''-'' \<or> startsWith t ''+'' then tl t else t);
          hex = (startsWith u ''0x'' \<or> startsWith u ''0X'');
          v = (if hex then drop 2 u else u);
          ds = (if hex then takeWhile is_hex_digit v else takeWhile is_digit v);
          n = (if hex then digits_value 16 hex_val ds else digits_value 10 digit_val ds)
      in if ds = [] then NaN
         else Num (if neg then - of_nat n else of_nat n))"

text \<open>\<open>Math.min(a, b)\<close> and \<open>Math.min(...xs)\<close>: \<open>Infinity\<close> for no argument.\<close>

fun min2 :: "jsnum \<Rightarrow> jsnum \<Rightarrow> jsnum" where
  "min2 NaN y = NaN"
| "min2 x NaN = NaN"
| "min2 NegInfinity y = NegInfinity"
| "min2 x NegInfinity = NegInfinity"
| "min2 PosInfinity y = y"
| "min2 x PosInfinity = x"
| "min2 (Num a) (Num b) = Num (min a b)"

definition Math_min :: "jsnum list \<Rightarrow> jsnum" where
  "Math_min xs = foldl min2 PosInfinity xs"

section \<open>Shared types\<close>

text \<open>
  Modelled from the spec: the enumeration \<open>AuthStatus\<close> is declared in the storage
  module \<open>appStorage\<close>, which is not among the sources. Its members are the four of the
  spec's data model, which are the ones the code names.
\<close>

datatype AuthStatus = Success | NotLoggedIn | Failure | Pending

text \<open>What an auth probe returns (\<open>AmazonInfo\<close> in Amazon's module).\<close>

record AuthInfo =
  status :: AuthStatus
  startingYear :: "jsnum option"

text \<open>
  A \<open>fetch\<close> either throws or gives a response: its HTTP status and what
  \<open>load(await res.text())\<close> gives, which is an exception or the parsed document.
  The network is a function of the URL.
\<close>

type_synonym 'd response = "nat \<times> (exn + 'd)"
type_synonym 'd fetch = "string \<Rightarrow> exn + 'd response"

text \<open>
  The value attributes of the \<open>option\<close> elements that contain \<open>year\<close>, trimmed and
  with the first \<open>year-\<close> removed (the \<open>each\<close> loop of both auth probes).
\<close>

fun yearOptions :: "string option list \<Rightarrow> string list" where
  "yearOptions [] = []"
| "yearOptions (None # vs) = yearOptions vs"
| "yearOptions (Some v # vs) =
     (if js_includes v ''year'' then js_replace (js_trim v) ''year-'' '''' # yearOptions vs
      else yearOptions vs)"

text \<open>
  The records of both providers. Amazon's module declares its \<open>Order\<close>, \<open>Item\<close> and
  \<open>OrderTransaction\<close>; Walmart's come from the module \<open>types\<close>, which is not among the
  sources, and have the properties of the object literals that Walmart's code builds.
  A property that an object may lack is an option: Amazon's items carry no \<open>orderId\<close>
  and no \<open>refunded\<close> property, and its orders no \<open>walmartStorePurchase\<close>. The
  properties \<open>id\<close> and \<open>date\<close> are \<open>order_id\<close> and \<open>order_date\<close> on an order,
  \<open>tx_id\<close> and \<open>tx_date\<close> on a transaction.
\<close>

record Item =
  orderId :: "string option"
  title :: string
  price :: jsnum
  refunded :: "bool option"

record OrderTransaction =
  tx_id :: string
  tx_date :: string
  amount :: jsnum
  refund :: bool
  items :: "Item list"

record Order =
  order_id :: string
  order_date :: string
  walmartStorePurchase :: "bool option"
  transactions :: "OrderTransaction list option"

text \<open>
  Modelled from the spec: \<open>ProgressPhase\<close> and \<open>ProgressState\<close> are declared in the
  storage module \<open>progressStorage\<close>, which is not among the sources. The phases are
  the page-scan and the detail-download phase of each provider, idle and complete; the
  state is the \<open>{phase, total, complete}\<close> that the code passes to \<open>onProgress\<close>.
\<close>

datatype ProgressPhase =
  Idle | AmazonPageScan | AmazonOrderDownload | WalmartPageScan | WalmartOrderDownload | Complete

record ProgressState =
  phase :: ProgressPhase
  total :: int
  complete :: int

section \<open>Documents\<close>

text \<open>
  A parsed document is what the selectors of the code read from it, in document
  order: for every selector that the code applies, the texts or attributes of the
  elements it matches. Selectors with an attribute or \<open>:contains\<close> test are applied by
  the model itself to the candidates' attributes or texts.
\<close>

record amazon_card =
  card_hrefs :: "string list"  \<comment> \<open>the \<open>href\<close> of each \<open>a[href]\<close> inside the card\<close>
  card_values :: "string list"  \<comment> \<open>the text of each \<open>.order-info .value\<close>\<close>

record amazon_item_el =
  link_texts :: "string list"  \<comment> \<open>the text of each \<open>.a-link-normal\<close>\<close>
  price_texts :: "string list"  \<comment> \<open>the text of each \<open>.a-color-price\<close>\<close>

record amazon_doc =
  a_h1 :: "string list"  \<comment> \<open>the text of each \<open>h1\<close>\<close>
  a_time_filter :: "string option list"
    \<comment> \<open>the \<open>value\<close> attribute of each \<open>option\<close> under \<open>#time-filter\<close>\<close>
  a_pagination :: "string list"  \<comment> \<open>the text of each \<open>.a-pagination li\<close>\<close>
  a_order_cards :: "amazon_card list"  \<comment> \<open>each \<open>.js-order-card\<close>\<close>
  a_items :: "amazon_item_el list"  \<comment> \<open>each \<open>.yohtmlc-item\<close>\<close>
  a_gift_card :: string
    \<comment> \<open>the text of \<open>#od-subtotals .a-column:contains("Gift Card") + .a-column\<close>\<close>
  a_detail_rows :: "string list"
    \<comment> \<open>the text of each \<open>.a-row\<close> in the first \<open>.a-expander-inline-content\<close>\<close>

record walmart_group =
  return_hrefs :: "string option list"
    \<comment> \<open>the \<open>href\<close>, if any, of each \<open>a[link-identifier="Start a return"]\<close>\<close>
  h3_text :: string  \<comment> \<open>the text of the \<open>h3\<close> elements\<close>

record walmart_tile =
  product_names :: "string list"  \<comment> \<open>the text of each \<open>[data-testid="productName"]\<close>\<close>
  tile_prices :: "string list"  \<comment> \<open>the text of each \<open>.column3 .f5.b.black.tr\<close>\<close>
  tile_category_label :: string
    \<comment> \<open>the text of the category labels in the closest category accordion\<close>

record walmart_bill =
  bill_date :: string  \<comment> \<open>the text of \<open>h1.print-bill-date\<close>\<close>
  total_payments :: "string list"  \<comment> \<open>the text of each \<open>.bill-order-total-payment h2\<close>\<close>
  bill_category_label :: string  \<comment> \<open>the text of the category labels inside\<close>

record walmart_doc =
  w_mw3 :: "string list"  \<comment> \<open>the text of each \<open>.mw3\<close>\<close>
  w_time_filter :: "string option list"
  w_order_groups :: "walmart_group list"  \<comment> \<open>each \<open>[data-testid^="orderGroup-"]\<close>\<close>
  w_item_tiles :: "walmart_tile list"  \<comment> \<open>each \<open>[data-testid="itemtile-stack"]\<close>\<close>
  w_bills :: "walmart_bill list"
    \<comment> \<open>each \<open>[data-testid^="orderGroup-"], .print-bill-body\<close>, queried for the bill\<close>

text \<open>\<open>$(sel).first().text()\<close>: the empty string for an empty selection.\<close>

fun first_text :: "string list \<Rightarrow> string" where
  "first_text [] = []"
| "first_text (t # ts) = t"

fun last_text :: "string list \<Rightarrow> string" where
  "last_text [] = []"
| "last_text [t] = t"
| "last_text (t # ts) = last_text ts"

section \<open>The auth probes\<close>

definition AMAZON_ORDER_PAGES_URL :: string where
  "AMAZON_ORDER_PAGES_URL = ''https://www.amazon.com/gp/css/order-history?disableCsd=no-js''"

definition AMAZON_ORDER_DETAILS_URL :: string where
  "AMAZON_ORDER_DETAILS_URL = ''https://www.amazon.com/gp/your-account/order-details''"

definition WALMART_ORDER_PAGES_URL :: string where
  "WALMART_ORDER_PAGES_URL = ''https://www.walmart.com/orders''"

text \<open>The body of the \<open>try\<close> block of \<open>checkAmazonAuth\<close>, with the log it leaves.\<close>

definition checkAmazonAuth_try ::
  "amazon_doc fetch \<Rightarrow> logged list \<Rightarrow> (exn + AuthInfo) \<times> logged list" where
  "checkAmazonAuth_try fetch log0 =
     (let log1 = log0 @ [LogString ''Checking Amazon auth''] in
      case fetch AMAZON_ORDER_PAGES_URL of
        Inl e \<Rightarrow> (Inl e, log1)
      | Inr (st, body) \<Rightarrow>
          let log2 = log1 @ [LogString (''Got Amazon auth response'' @ Number_toString st)] in
          (case body of
             Inl e \<Rightarrow> (Inl e, log2)
           | Inr d \<Rightarrow>
               let signIn = filter (\<lambda>t. js_includes t ''Sign in'') (a_h1 d) in
               if length signIn > 0
               then (Inr \<lparr>status = NotLoggedIn, startingYear = None\<rparr>,
                     log2 @ [LogString ''Amazon auth failed''])
               else
                 let lowestYear = Math_min (map parseInt (yearOptions (a_time_filter d))) in
                 (Inr \<lparr>status = Success, startingYear = Some lowestYear\<rparr>,
                  log2 @ [LogString ''Amazon auth success''])))"

definition checkAmazonAuth :: "amazon_doc fetch \<Rightarrow> logged list \<Rightarrow> AuthInfo \<times> logged list" where
  "checkAmazonAuth fetch log0 =
     (case checkAmazonAuth_try fetch log0 of
        (Inr info, log1) \<Rightarrow> (info, log1)
      | (Inl e, log1) \<Rightarrow>
          (\<lparr>status = Failure, startingYear = None\<rparr>,
           log1 @ [LogString (''Amazon auth failed with error: '' @ exn_toString e)]))"

text \<open>\<open>WalmartProvider.doCheckAuth\<close>\<close>

definition Walmart_doCheckAuth_try ::
  "walmart_doc fetch \<Rightarrow> logged list \<Rightarrow> (exn + AuthInfo) \<times> logged list" where
  "Walmart_doCheckAuth_try fetch log0 =
     (case fetch WALMART_ORDER_PAGES_URL of
        Inl e \<Rightarrow> (Inl e, log0)
      | Inr (st, body) \<Rightarrow>
          (case body of
             Inl e \<Rightarrow> (Inl e, log0)
           | Inr d \<Rightarrow>
               let signIn = filter (\<lambda>t. js_includes t ''Sign In'') (w_mw3 d) in
               if length signIn > 0
               then (Inr \<lparr>status = NotLoggedIn, startingYear = None\<rparr>, log0)
               else
                 let lowestYear = Math_min (map parseInt (yearOptions (w_time_filter d))) in
                 (Inr \<lparr>status = Success, startingYear = Some lowestYear\<rparr>, log0)))"

definition Walmart_doCheckAuth ::
  "walmart_doc fetch \<Rightarrow> logged list \<Rightarrow> AuthInfo \<times> logged list" where
  "Walmart_doCheckAuth fetch log0 =
     (case Walmart_doCheckAuth_try fetch log0 of
        (Inr info, log1) \<Rightarrow> (info, log1)
      | (Inl e, log1) \<Rightarrow>
          (\<lparr>status = Failure, startingYear = None\<rparr>,
           log1 @ [LogString (''Walmart auth failed with error: '' @ exn_toString e)]))"

section \<open>Amounts\<close>

text \<open>
  \<open>parseFloat(s)\<close>: leading white space is skipped and the longest prefix that is a
  decimal literal is read: a sign, then \<open>Infinity\<close> or digits with an optional fraction
  and an optional exponent. No such prefix gives \<open>NaN\<close>.
\<close>

definition decimal_value :: "string \<Rightarrow> string \<Rightarrow> rat" where
  "decimal_value ip fp =
     of_nat (digits_value 10 digit_val ip) +
     of_nat (digits_value 10 digit_val fp) / 10 ^ length fp"

text \<open>The exponent that follows the mantissa: 0 when no complete exponent part does.\<close>

definition exponent_part :: "string \<Rightarrow> int" where
  "exponent_part r =
     (case r of
        [] \<Rightarrow> 0
      | c # r1 \<Rightarrow>
          if c = CHR ''e'' \<or> c = CHR ''E''
          then
            (let neg = startsWith r1 ''-'';
                 r2 = (if startsWith r1 ''-'' \<or> startsWith r1 ''+'' then tl r1 else r1);
                 ds = takeWhile is_digit r2
             in if ds = [] then 0
                else if neg then - int (digits_value 10 digit_val ds)
                else int (digits_value 10 digit_val ds))
          else 0)"

definition scale10 :: "rat \<Rightarrow> int \<Rightarrow> rat" where
  "scale10 m e = (if 0 \<le> e then m * 10 ^ nat e else m / 10 ^ nat (- e))"

text \<open>The literal after the sign: \<open>Infinity\<close>, or a mantissa with an optional exponent.\<close>

definition unsigned_literal :: "string \<Rightarrow> jsnum" where
  "unsigned_literal u =
     (if startsWith u ''Infinity'' then PosInfinity
      else
        (let ip = takeWhile is_digit u;
             r1 = dropWhile is_digit u;
             fp = (if startsWith r1 ''.'' then takeWhile is_digit (tl r1) else []);
             r2 = (if startsWith r1 ''.'' then dropWhile is_digit (tl r1) else r1)
         in if ip = [] \<and> fp = [] then NaN
            else Num (scale10 (decimal_value ip fp) (exponent_part r2))))"

fun negate :: "jsnum \<Rightarrow> jsnum" where
  "negate NaN = NaN"
| "negate (Num r) = Num (- r)"
| "negate PosInfinity = NegInfinity"
| "negate NegInfinity = PosInfinity"

definition parseFloat :: "string \<Rightarrow> jsnum" where
  "parseFloat s =
     (let t = dropWhile is_whitespace s
      in if startsWith t ''-'' then negate (unsigned_literal (tl t))
         else if startsWith t ''+'' then unsigned_literal (tl t)
         else unsigned_literal t)"

text \<open>
  Amazon's \<open>moneyToNumber(money, absoluteValue = true)\<close>. The argument may be
  \<open>undefined\<close> (\<open>None\<close>), which \<open>parseFloat\<close> reads as the text \<open>undefined\<close>. The
  global replacement of a character class by the empty string keeps the other characters.
\<close>

definition moneyToNumber :: "string option \<Rightarrow> bool \<Rightarrow> jsnum" where
  "moneyToNumber money absoluteValue =
     (case money of
        None \<Rightarrow> parseFloat ''undefined''
      | Some m \<Rightarrow>
          parseFloat
            (if absoluteValue
             then filter (\<lambda>c. \<not> (c = CHR ''$'' \<or> is_whitespace c \<or> c = CHR ''-'')) m
             else filter (\<lambda>c. \<not> (c = CHR ''$'' \<or> is_whitespace c)) m))"

text \<open>
  Walmart's amount expression, written out for the item price and for the transaction
  amount: \<open>text ? parseFloat(text.replace(/[^0-9.-]+/g, '')) : 0\<close>.
\<close>

definition Walmart_parseAmount :: "string \<Rightarrow> jsnum" where
  "Walmart_parseAmount text =
     (if text \<noteq> []
      then parseFloat (filter (\<lambda>c. is_digit c \<or> c = CHR ''.'' \<or> c = CHR ''-'') text)
      else Num 0)"

section \<open>Regular expressions of the listing and detail extraction\<close>

text \<open>
  \<open>.*X\<close> tried at the head of a string: \<open>.*\<close> takes as many characters as it can, none of
  them a line terminator, and gives them back one by one until \<open>X\<close> matches what follows.
  \<open>x\<close> reads \<open>X\<close> at the head of a string.
\<close>

fun greedy_then :: "(string \<Rightarrow> 'a option) \<Rightarrow> string \<Rightarrow> 'a option" where
  "greedy_then x [] = x []"
| "greedy_then x (c # cs) =
     (if is_line_terminator c then x (c # cs)
      else (case greedy_then x cs of Some r \<Rightarrow> Some r | None \<Rightarrow> x (c # cs)))"

text \<open>
  \<open>s.replace(re, '$1')\<close> for a regular expression without the global flag: the leftmost
  match is replaced by its first group. \<open>m\<close> reads the expression at the head of a
  string and gives the group and what follows the match.
\<close>

fun replace_match :: "(string \<Rightarrow> (string \<times> string) option) \<Rightarrow> string \<Rightarrow> string" where
  "replace_match m [] = (case m [] of Some (g, rest) \<Rightarrow> g @ rest | None \<Rightarrow> [])"
| "replace_match m (c # cs) =
     (case m (c # cs) of Some (g, rest) \<Rightarrow> g @ rest | None \<Rightarrow> c # replace_match m cs)"

text \<open>\<open>s.match(re)\<close>: the leftmost match, read by \<open>m\<close> at the head of a string.\<close>

fun regex_search :: "(string \<Rightarrow> 'a option) \<Rightarrow> string \<Rightarrow> 'a option" where
  "regex_search m [] = m []"
| "regex_search m (c # cs) =
     (case m (c # cs) of Some r \<Rightarrow> Some r | None \<Rightarrow> regex_search m cs)"

text \<open>\<open>orderID=([^&#]+).*\<close> at the head of a string.\<close>

definition orderID_at :: "string \<Rightarrow> (string \<times> string) option" where
  "orderID_at s =
     (if startsWith s ''orderID=''
      then
        (let r = drop 8 s;
             g = takeWhile (\<lambda>c. c \<noteq> CHR ''&'' \<and> c \<noteq> CHR ''#'') r;
             rest = dropWhile (\<lambda>c. c \<noteq> CHR ''&'' \<and> c \<noteq> CHR ''#'') r
         in if g = [] then None
            else Some (g, dropWhile (\<lambda>c. \<not> is_line_terminator c) rest))
      else None)"

text \<open>\<open>orders\/([^/]+)\/.*\<close> at the head of a string.\<close>

definition orders_at :: "string \<Rightarrow> (string \<times> string) option" where
  "orders_at s =
     (if startsWith s ''orders/''
      then
        (let r = drop 7 s;
             g = takeWhile (\<lambda>c. c \<noteq> CHR ''/'') r;
             rest = dropWhile (\<lambda>c. c \<noteq> CHR ''/'') r
         in if g = [] \<or> rest = [] then None
            else Some (g, dropWhile (\<lambda>c. \<not> is_line_terminator c) (tl rest)))
      else None)"

text \<open>
  \<open>(\w+ \d{2}, \d{4})\<close> followed by one of the given texts, at the head of a string: the
  group.
\<close>

definition date_at :: "string list \<Rightarrow> string \<Rightarrow> string option" where
  "date_at tails s =
     (let w = takeWhile is_word_char s;
          r = dropWhile is_word_char s
      in if w \<noteq> [] \<and> 9 \<le> length r \<and> r ! 0 = CHR '' '' \<and> is_digit (r ! 1) \<and> is_digit (r ! 2)
            \<and> r ! 3 = CHR '','' \<and> r ! 4 = CHR '' '' \<and> is_digit (r ! 5) \<and> is_digit (r ! 6)
            \<and> is_digit (r ! 7) \<and> is_digit (r ! 8)
            \<and> list_ex (\<lambda>t. startsWith (drop 9 r) t) tails
         then Some (w @ take 9 r)
         else None)"

section \<open>Listing extraction\<close>

text \<open>JavaScript truthiness of a string that may be \<open>undefined\<close>.\<close>

fun truthy :: "string option \<Rightarrow> bool" where
  "truthy None = False"
| "truthy (Some s) = (s \<noteq> [])"

text \<open>
  The \<open>href\<close> that \<open>$(el).find('a[href*="orderID="]')?.attr('href')\<close> reads from a card: that
  of the first link whose \<open>href\<close> contains \<open>orderID=\<close>, \<open>undefined\<close> when the card has none.
\<close>

definition amazon_orderLink :: "amazon_card \<Rightarrow> string option" where
  "amazon_orderLink el =
     (case filter (\<lambda>h. js_includes h ''orderID='') (card_hrefs el) of
        [] \<Rightarrow> None
      | h # hs \<Rightarrow> Some h)"

text \<open>
  The \<open>id\<close> that Amazon's \<open>orderListFromPage\<close> reads from a card: that \<open>href\<close> with the
  leftmost match of \<open>/.*orderID=([^&#]+).*/\<close> replaced by its group.
\<close>

definition amazon_card_id :: "amazon_card \<Rightarrow> string option" where
  "amazon_card_id el = map_option (replace_match (greedy_then orderID_at)) (amazon_orderLink el)"

text \<open>
  Amazon's \<open>orderListFromPage\<close>, one card after the other, with the diagnostic log.
  No statement of the \<open>try\<close> block raises on a document, so the \<open>catch\<close> that would log
  has no branch here.
\<close>

fun amazon_cards :: "amazon_card list \<Rightarrow> Order list \<Rightarrow> logged list \<Rightarrow> Order list \<times> logged list" where
  "amazon_cards [] orders lg = (orders, lg)"
| "amazon_cards (el # els) orders lg =
     (case amazon_card_id el of
        Some i \<Rightarrow>
          if i \<noteq> []
          then amazon_cards els
                 (orders @ [\<lparr>order_id = i, order_date = js_trim (first_text (card_values el)),
                     walmartStorePurchase = None, transactions = None\<rparr>]) lg
          else amazon_cards els orders lg
      | None \<Rightarrow> amazon_cards els orders lg)"

definition orderListFromPage :: "amazon_doc \<Rightarrow> logged list \<Rightarrow> Order list \<times> logged list" where
  "orderListFromPage d lg = amazon_cards (a_order_cards d) [] lg"

text \<open>\<open>WalmartProvider.orderListFromPage\<close>\<close>

definition walmart_returnLink :: "walmart_group \<Rightarrow> string option" where
  "walmart_returnLink el = (case return_hrefs el of [] \<Rightarrow> None | h # hs \<Rightarrow> h)"

definition walmart_group_id :: "walmart_group \<Rightarrow> string option" where
  "walmart_group_id el = map_option (replace_match (greedy_then orders_at)) (walmart_returnLink el)"

fun walmart_groups ::
  "walmart_group list \<Rightarrow> Order list \<Rightarrow> logged list \<Rightarrow> Order list \<times> logged list" where
  "walmart_groups [] orders lg = (orders, lg)"
| "walmart_groups (el # els) orders lg =
     (let returnLink = walmart_returnLink el;
          i = walmart_group_id el;
          storePurchase = map_option (\<lambda>l. js_includes l ''orderSource=STORE'') returnLink
      in if \<not> truthy i
         then walmart_groups els orders
                (lg @ [LogString ''No order ID found in orderGroup-* element''])
         else
           (let dateText = js_trim (h3_text el);
                dateMatch = regex_search (date_at ['' purchase'']) dateText;
                d = (case dateMatch of Some g \<Rightarrow> g | None \<Rightarrow> [])
            in walmart_groups els
                 (orders @ [\<lparr>order_id = the i, order_date = d,
                     walmartStorePurchase = storePurchase, transactions = None\<rparr>]) lg))"

definition Walmart_orderListFromPage ::
  "walmart_doc \<Rightarrow> logged list \<Rightarrow> Order list \<times> logged list" where
  "Walmart_orderListFromPage d lg = walmart_groups (w_order_groups d) [] lg"

text \<open>The order that the listing loop pushes for an entry with an identifier.\<close>

definition amazon_order_of :: "amazon_card \<Rightarrow> Order" where
  "amazon_order_of el =
     \<lparr>order_id = the (amazon_card_id el), order_date = js_trim (first_text (card_values el)),
      walmartStorePurchase = None, transactions = None\<rparr>"

definition walmart_order_of :: "walmart_group \<Rightarrow> Order" where
  "walmart_order_of el =
     \<lparr>order_id = the (walmart_group_id el),
      order_date = (case regex_search (date_at ['' purchase'']) (js_trim (h3_text el)) of
         Some g \<Rightarrow> g | None \<Rightarrow> []),
      walmartStorePurchase =
        map_option (\<lambda>l. js_includes l ''orderSource=STORE'') (walmart_returnLink el),
      transactions = None\<rparr>"

subsection \<open>Entries with a recoverable identifier\<close>

text \<open>
  What the statement about listing extraction takes for an entry whose identifier can
  be recovered; these predicates describe documents and are no part of the program.
  An Amazon \<open>href\<close> carries the identifier \<open>g\<close> when its last \<open>orderID=\<close> is followed by
  \<open>g\<close>, a non-empty run of characters other than \<open>&\<close> and \<open>#\<close> that ends with the \<open>href\<close> or
  at one of these two characters. A Walmart \<open>href\<close> carries \<open>g\<close> when its last \<open>orders/\<close>
  is followed by \<open>g\<close>, a non-empty run of characters other than \<open>/\<close>, and then \<open>/\<close>. Neither
  \<open>href\<close> holds a line terminator.
\<close>

definition amazon_href_carries :: "string \<Rightarrow> string \<Rightarrow> bool" where
  "amazon_href_carries h g \<longleftrightarrow>
     (\<exists>pre rest. h = pre @ ''orderID='' @ g @ rest
        \<and> g \<noteq> [] \<and> (\<forall>c \<in> set g. c \<noteq> CHR ''&'' \<and> c \<noteq> CHR ''#'')
        \<and> (rest = [] \<or> hd rest = CHR ''&'' \<or> hd rest = CHR ''#'')
        \<and> \<not> js_includes (g @ rest) ''orderID=''
        \<and> (\<forall>c \<in> set h. \<not> is_line_terminator c))"

definition walmart_href_carries :: "string \<Rightarrow> string \<Rightarrow> bool" where
  "walmart_href_carries h g \<longleftrightarrow>
     (\<exists>pre rest. h = pre @ ''orders/'' @ g @ ''/'' @ rest
        \<and> g \<noteq> [] \<and> (\<forall>c \<in> set g. c \<noteq> CHR ''/'')
        \<and> \<not> js_includes (g @ ''/'' @ rest) ''orders/''
        \<and> (\<forall>c \<in> set h. \<not> is_line_terminator c))"

text \<open>
  An entry of a listing page and what it carries: \<open>Some g\<close> when its link carries the
  identifier \<open>g\<close>; \<open>None\<close> when it has no identifier link at all (Amazon: no link whose
  \<open>href\<close> contains \<open>orderID=\<close>; Walmart: no return link, or one whose \<open>href\<close> is absent or
  empty). An entry whose link is there and carries no identifier is neither.
\<close>

fun amazon_entry :: "amazon_card \<Rightarrow> string option \<Rightarrow> bool" where
  "amazon_entry el None \<longleftrightarrow> amazon_orderLink el = None"
| "amazon_entry el (Some g) \<longleftrightarrow>
     (\<exists>h. amazon_orderLink el = Some h \<and> amazon_href_carries h g)"

fun walmart_entry :: "walmart_group \<Rightarrow> string option \<Rightarrow> bool" where
  "walmart_entry el None \<longleftrightarrow> \<not> truthy (walmart_returnLink el)"
| "walmart_entry el (Some g) \<longleftrightarrow>
     (\<exists>h. walmart_returnLink el = Some h \<and> walmart_href_carries h g)"

section \<open>Effects of a sync run\<close>

text \<open>
  What a run leaves behind, in order: the entries given to \<open>debugLog\<close>, the states given
  to \<open>onProgress\<close>, and the URLs given to \<open>fetch\<close>.

  Modelled from the spec: \<open>debugLog\<close> is exported by the storage module
  \<open>debugStorage\<close>, which is not among the sources. It is the diagnostic-log sink of the
  spec's external interfaces: it accepts a string or a caught error, appends it to the
  log and never throws. The auth probes above append to the log in the same way.
\<close>

record io =
  io_log :: "logged list"
  io_progress :: "ProgressState list"
  io_requests :: "string list"

definition debugLog :: "logged \<Rightarrow> io \<Rightarrow> io" where
  "debugLog x s = s\<lparr>io_log := io_log s @ [x]\<rparr>"

definition onProgress :: "ProgressState \<Rightarrow> io \<Rightarrow> io" where
  "onProgress p s = s\<lparr>io_progress := io_progress s @ [p]\<rparr>"

definition request :: "string \<Rightarrow> io \<Rightarrow> io" where
  "request url s = s\<lparr>io_requests := io_requests s @ [url]\<rparr>"

section \<open>Detail extraction\<close>

definition WALMART_ORDER_DETAILS_URL :: string where
  "WALMART_ORDER_DETAILS_URL = ''https://www.walmart.com/orders/{orderID}?storePurchase={storePurchase}''"

text \<open>
  The items of Walmart's detail page: each item tile with a title, with its price and
  the refunded flag read from the category label of its accordion.
\<close>

fun walmart_items :: "string \<Rightarrow> walmart_tile list \<Rightarrow> Item list" where
  "walmart_items oid [] = []"
| "walmart_items oid (el # els) =
     (let itemTitle = js_trim (first_text (product_names el));
          itemPriceText = js_trim (first_text (tile_prices el));
          itemPrice = Walmart_parseAmount itemPriceText;
          isRefunded = js_includes (tile_category_label el) ''Refunded''
      in if itemTitle \<noteq> []
         then \<lparr>orderId = Some oid, title = itemTitle, price = itemPrice,
               refunded = Some isRefunded\<rparr> # walmart_items oid els
         else walmart_items oid els)"

text \<open>The transactions of Walmart's detail page: one for each bill block.\<close>

fun walmart_transactions :: "string \<Rightarrow> Item list \<Rightarrow> walmart_bill list \<Rightarrow> OrderTransaction list" where
  "walmart_transactions oid its [] = []"
| "walmart_transactions oid its (el # els) =
     (let dateText = js_trim (bill_date el);
          dateMatch = regex_search (date_at ['' order'', '' purchase'']) dateText;
          d = (case dateMatch of Some g \<Rightarrow> g | None \<Rightarrow> []);
          amountText = js_trim (last_text (total_payments el));
          amt = Walmart_parseAmount amountText;
          rf = js_includes (bill_category_label el) ''Refunded''
      in \<lparr>tx_id = oid, tx_date = d, amount = amt, refund = rf,
           items = filter (\<lambda>item. refunded item = Some rf) its\<rparr>
         # walmart_transactions oid its els)"

text \<open>
  \<open>WalmartProvider.fetchOrderTransactions\<close>: the part after \<open>load\<close>, and the whole
  function, which throws when the fetch or the reading of the response does.
\<close>

definition Walmart_orderDetails :: "walmart_doc \<Rightarrow> Order \<Rightarrow> Order" where
  "Walmart_orderDetails d ord =
     (let its = walmart_items (order_id ord) (w_item_tiles d);
          txs = walmart_transactions (order_id ord) its (w_bills d)
      in ord\<lparr>transactions := Some txs\<rparr>)"

definition Walmart_orderUrl :: "Order \<Rightarrow> string" where
  "Walmart_orderUrl ord =
     js_replace (js_replace WALMART_ORDER_DETAILS_URL ''{orderID}'' (order_id ord))
       ''{storePurchase}'' (if walmartStorePurchase ord = Some True then ''true'' else ''false'')"

definition Walmart_fetchOrderTransactions ::
  "walmart_doc fetch \<Rightarrow> Order \<Rightarrow> io \<Rightarrow> (exn + Order) \<times> io" where
  "Walmart_fetchOrderTransactions fetch ord s0 =
     (let s1 = request (Walmart_orderUrl ord) s0 in
      case fetch (Walmart_orderUrl ord) of
        Inl e \<Rightarrow> (Inl e, s1)
      | Inr (st, body) \<Rightarrow>
          (case body of
             Inl e \<Rightarrow> (Inl e, s1)
           | Inr d \<Rightarrow> (Inr (Walmart_orderDetails d ord), s1)))"

text \<open>The items of Amazon's detail page: each item element with a title.\<close>

fun amazon_items :: "amazon_item_el list \<Rightarrow> Item list" where
  "amazon_items [] = []"
| "amazon_items (el # els) =
     (let item = js_trim (first_text (link_texts el));
          p = moneyToNumber (Some (first_text (price_texts el))) True
      in if item \<noteq> []
         then \<lparr>orderId = None, title = item, price = p, refunded = None\<rparr> # amazon_items els
         else amazon_items els)"

text \<open>Truthiness of a number: neither 0 nor \<open>NaN\<close>.\<close>

fun truthy_num :: "jsnum \<Rightarrow> bool" where
  "truthy_num NaN = False"
| "truthy_num (Num r) = (r \<noteq> 0)"
| "truthy_num PosInfinity = True"
| "truthy_num NegInfinity = True"

text \<open>
  The \<open>TypeError\<close> of a method call on \<open>undefined\<close>; the message names the property
  between apostrophes.
\<close>

definition undefined_read :: "string \<Rightarrow> exn" where
  "undefined_read prop =
     Exn ''TypeError''
       (''Cannot read properties of undefined (reading '' @ [CHR 0x27] @ prop @ [CHR 0x27]
          @ '')'')"

text \<open>
  The date and the amount of a shipment or refund row, from the text after the row's
  label: \<open>split('-')[0].trim()\<close> and \<open>moneyToNumber(split('-')[1].split('$')[1])\<close>. The
  second piece is missing when the text has no \<open>-\<close>, and \<open>split\<close> on it throws.
\<close>

definition amazon_date_amount :: "string \<Rightarrow> exn + (string \<times> jsnum)" where
  "amazon_date_amount dateAndAmount =
     (let pieces = js_split dateAndAmount ''-'';
          d = js_trim (pieces ! 0)
      in case at_index pieces 1 of
           None \<Rightarrow> Inl (undefined_read ''split'')
         | Some p \<Rightarrow> Inr (d, moneyToNumber (at_index (js_split p ''$'') 1) True))"

text \<open>
  The rows of the first expander: a transaction for each shipment row and each completed
  refund row, every one holding all the items. The first row that throws ends the loop.
\<close>

fun amazon_rows :: "string \<Rightarrow> Item list \<Rightarrow> string list \<Rightarrow> exn + OrderTransaction list" where
  "amazon_rows oid its [] = Inr []"
| "amazon_rows oid its (el # els) =
     (let line = filter (\<lambda>c. c \<noteq> CHR 0x0A) (js_trim el)
      in if js_includes line ''Items shipped''
         then
           (case at_index (js_split line ''shipped:'') 1 of
              None \<Rightarrow> Inl (undefined_read ''trim'')
            | Some rest \<Rightarrow>
                (case amazon_date_amount (js_trim rest) of
                   Inl e \<Rightarrow> Inl e
                 | Inr (d, amt) \<Rightarrow>
                     (case amazon_rows oid its els of
                        Inl e \<Rightarrow> Inl e
                      | Inr txs \<Rightarrow>
                          Inr (\<lparr>tx_id = oid, tx_date = d, amount = amt, refund = False,
                                 items = its\<rparr> # txs))))
         else if js_includes line ''Refund: Completed''
         then
           (case at_index (js_split line '': Completed'') 1 of
              None \<Rightarrow> Inl (undefined_read ''trim'')
            | Some rest \<Rightarrow>
                (case amazon_date_amount (js_trim rest) of
                   Inl e \<Rightarrow> Inl e
                 | Inr (d, amt) \<Rightarrow>
                     (case amazon_rows oid its els of
                        Inl e \<Rightarrow> Inl e
                      | Inr txs \<Rightarrow>
                          Inr (\<lparr>tx_id = oid, tx_date = d, amount = amt, refund = True,
                                 items = its\<rparr> # txs))))
         else amazon_rows oid its els)"

text \<open>
  Amazon's \<open>fetchOrderTransactions\<close>: the part after \<open>load\<close>, which throws when a row
  does, and the whole function with the log it leaves.
\<close>

definition amazon_orderDetails :: "amazon_doc \<Rightarrow> Order \<Rightarrow> exn + Order" where
  "amazon_orderDetails d ord =
     (let its = amazon_items (a_items d);
          giftCardAmount = moneyToNumber (Some (a_gift_card d)) True;
          gift = (if truthy_num giftCardAmount
                  then [\<lparr>tx_id = order_id ord, tx_date = order_date ord, amount = giftCardAmount,
                          refund = False, items = its\<rparr>]
                  else [])
      in case amazon_rows (order_id ord) its (a_detail_rows d) of
           Inl e \<Rightarrow> Inl e
         | Inr txs \<Rightarrow> Inr (ord\<lparr>transactions := Some (gift @ txs)\<rparr>))"

definition fetchOrderTransactions ::
  "amazon_doc fetch \<Rightarrow> Order \<Rightarrow> io \<Rightarrow> (exn + Order) \<times> io" where
  "fetchOrderTransactions fetch ord s0 =
     (let url = AMAZON_ORDER_DETAILS_URL @ ''?orderID='' @ order_id ord;
          s1 = request url (debugLog (LogString (''Fetching order '' @ order_id ord)) s0)
      in case fetch url of
           Inl e \<Rightarrow> (Inl e, s1)
         | Inr (st, body) \<Rightarrow>
             let s2 = debugLog (LogString (''Got order response '' @ Number_toString st @
                          '' for order '' @ order_id ord)) s1 in
             (case body of
                Inl e \<Rightarrow> (Inl e, s2)
              | Inr d \<Rightarrow> (amazon_orderDetails d ord, s2)))"

section \<open>fetchOrders\<close>

text \<open>
  The task \<open>processOrder\<close> of both providers, on the orders collected so far and the
  effects: \<open>fetchTx\<close> is the provider's \<open>fetchOrderTransactions\<close>, \<open>ph\<close> its download
  phase and \<open>n\<close> the number of discovered orders.
\<close>

definition processOrder ::
  "(Order \<Rightarrow> io \<Rightarrow> (exn + Order) \<times> io) \<Rightarrow> ProgressPhase \<Rightarrow> nat \<Rightarrow> Order \<Rightarrow>
     Order list \<times> io \<Rightarrow> Order list \<times> io" where
  "processOrder fetchTx ph n ord st =
     (case fetchTx ord (snd st) of
        (Inr orderData, s1) \<Rightarrow>
          (fst st @ [orderData],
           onProgress \<lparr>phase = ph, total = int n, complete = int (length (fst st @ [orderData]))\<rparr> s1)
      | (Inl e, s1) \<Rightarrow>
          (fst st,
           onProgress \<lparr>phase = ph, total = int n, complete = int (length (fst st))\<rparr>
             (debugLog (LogError e) s1)))"

text \<open>
  \<open>Throttle.all(tasks)\<close> of the library \<open>promise-parallel-throttle\<close>, which is not part of
  the repository: the tasks complete in an order that the network decides. \<open>schedule\<close>
  lists the indices of the tasks in the order of their completion, and the effects of a
  task are applied when it completes. How many tasks are in flight at a time, and how
  the log entries of different tasks interleave, is not modelled.
\<close>

definition Throttle_all :: "nat list \<Rightarrow> ('a \<Rightarrow> 's \<Rightarrow> 's) \<Rightarrow> 'a list \<Rightarrow> 's \<Rightarrow> 's" where
  "Throttle_all schedule task xs st =
     foldl (\<lambda>s i. if i < length xs then task (xs ! i) s else s) st schedule"

text \<open>The year filter of a URL: absent when \<open>year\<close> is \<open>undefined\<close> or 0.\<close>

definition timeFilter :: "string \<Rightarrow> int option \<Rightarrow> string" where
  "timeFilter sep year =
     (case year of
        None \<Rightarrow> []
      | Some y \<Rightarrow> if y \<noteq> 0 then sep @ ''timeFilter=year-'' @ Int_toString y else [])"

text \<open>Amazon's page count: the largest number among the texts of the pagination.\<close>

fun amazon_endPage :: "string list \<Rightarrow> int \<Rightarrow> int" where
  "amazon_endPage [] endPage = endPage"
| "amazon_endPage (el # els) endPage =
     (case parseInt (js_trim el) of
        Num numPage \<Rightarrow>
          if numPage > of_int endPage then amazon_endPage els \<lfloor>numPage\<rfloor>
          else amazon_endPage els endPage
      | NaN \<Rightarrow> amazon_endPage els endPage
      | PosInfinity \<Rightarrow> amazon_endPage els endPage
      | NegInfinity \<Rightarrow> amazon_endPage els endPage)"

text \<open>The numbers that the texts of a pagination read as, for the statement of the page count.\<close>

fun page_numbers :: "string list \<Rightarrow> int list" where
  "page_numbers [] = []"
| "page_numbers (el # els) =
     (case parseInt (js_trim el) of
        Num r \<Rightarrow> \<lfloor>r\<rfloor> # page_numbers els
      | NaN \<Rightarrow> page_numbers els
      | PosInfinity \<Rightarrow> page_numbers els
      | NegInfinity \<Rightarrow> page_numbers els)"

definition processOrders_url :: "int option \<Rightarrow> int \<Rightarrow> string" where
  "processOrders_url year page =
     AMAZON_ORDER_PAGES_URL @ ''&startIndex='' @ Int_toString ((page - 1) * 10) @
       timeFilter ''&'' year"

text \<open>Amazon's \<open>processOrders\<close>: one further listing page.\<close>

definition processOrders ::
  "amazon_doc fetch \<Rightarrow> int option \<Rightarrow> int \<Rightarrow> io \<Rightarrow> (exn + Order list) \<times> io" where
  "processOrders fetch year page s0 =
     (let url = processOrders_url year page;
          s1 = request url (debugLog (LogString (''Fetching orders from '' @ url)) s0)
      in case fetch url of
           Inl e \<Rightarrow> (Inl e, s1)
         | Inr (st, body) \<Rightarrow>
             let s2 = debugLog (LogString (''Got orders response '' @ Number_toString st @
                          '' for page '' @ Int_toString page)) s1 in
             (case body of
                Inl e \<Rightarrow> (Inl e, s2)
              | Inr d \<Rightarrow>
                  (case orderListFromPage d (io_log s2) of
                     (orders, lg) \<Rightarrow> (Inr orders, s2\<lparr>io_log := lg\<rparr>))))"

text \<open>The loop over the pages \<open>2..endPage\<close>, which a failing page ends.\<close>

fun amazon_pages ::
  "amazon_doc fetch \<Rightarrow> int option \<Rightarrow> int \<Rightarrow> int list \<Rightarrow> Order list \<Rightarrow> io \<Rightarrow>
     (exn + Order list) \<times> io" where
  "amazon_pages fetch year endPage [] orders s = (Inr orders, s)"
| "amazon_pages fetch year endPage (i # pages) orders s =
     (case processOrders fetch year i s of
        (Inl e, s1) \<Rightarrow> (Inl e, s1)
      | (Inr ordersPage, s1) \<Rightarrow>
          amazon_pages fetch year endPage pages (orders @ ordersPage)
            (onProgress \<lparr>phase = AmazonPageScan, total = endPage, complete = i\<rparr> s1))"

text \<open>
  Amazon's \<open>fetchOrders\<close> in two parts: the page scan, which gives the discovered
  orders, and the whole function, which runs the detail tasks on them.
\<close>

definition amazon_pageScan ::
  "amazon_doc fetch \<Rightarrow> int option \<Rightarrow> io \<Rightarrow> (exn + Order list) \<times> io" where
  "amazon_pageScan fetch year s0 =
     (let url = AMAZON_ORDER_PAGES_URL @ timeFilter ''&'' year;
          s1 = request url (debugLog (LogString (''Fetching orders from '' @ url)) s0)
      in case fetch url of
           Inl e \<Rightarrow> (Inl e, s1)
         | Inr (st, body) \<Rightarrow>
             let s2 = debugLog (LogString (''Got orders response '' @ Number_toString st)) s1 in
             (case body of
                Inl e \<Rightarrow> (Inl e, s2)
              | Inr d \<Rightarrow>
                  let endPage = amazon_endPage (a_pagination d) 1;
                      s3 = onProgress \<lparr>phase = AmazonPageScan, total = endPage, complete = 0\<rparr> s2
                  in case orderListFromPage d (io_log s3) of
                       (orders, lg) \<Rightarrow>
                         let s4 = debugLog (LogString (''Found '' @
                                    Number_toString (length orders) @ '' orders''))
                                    (s3\<lparr>io_log := lg\<rparr>);
                             s5 = onProgress
                                    \<lparr>phase = AmazonPageScan, total = endPage, complete = 1\<rparr> s4
                         in amazon_pages fetch year endPage [2..endPage] orders s5))"

definition fetchOrders ::
  "amazon_doc fetch \<Rightarrow> nat list \<Rightarrow> int option \<Rightarrow> io \<Rightarrow> (exn + Order list) \<times> io" where
  "fetchOrders fetch schedule year s0 =
     (case amazon_pageScan fetch year s0 of
        (Inl e, s1) \<Rightarrow> (Inl e, s1)
      | (Inr orders, s1) \<Rightarrow>
          (case Throttle_all schedule
                  (processOrder (fetchOrderTransactions fetch) AmazonOrderDownload (length orders))
                  orders ([], s1) of
             (allOrders, s2) \<Rightarrow> (Inr allOrders, s2)))"

definition Walmart_processOrders_url :: "int option \<Rightarrow> int \<Rightarrow> string" where
  "Walmart_processOrders_url year page =
     WALMART_ORDER_PAGES_URL @ ''?startIndex='' @ Int_toString ((page - 1) * 10) @
       timeFilter ''&'' year"

text \<open>\<open>WalmartProvider.processOrders\<close>\<close>

definition Walmart_processOrders ::
  "walmart_doc fetch \<Rightarrow> int option \<Rightarrow> int \<Rightarrow> io \<Rightarrow> (exn + Order list) \<times> io" where
  "Walmart_processOrders fetch year page s0 =
     (let url = Walmart_processOrders_url year page;
          s1 = request url s0
      in case fetch url of
           Inl e \<Rightarrow> (Inl e, s1)
         | Inr (st, body) \<Rightarrow>
             (case body of
                Inl e \<Rightarrow> (Inl e, s1)
              | Inr d \<Rightarrow>
                  (case Walmart_orderListFromPage d (io_log s1) of
                     (orders, lg) \<Rightarrow> (Inr orders, s1\<lparr>io_log := lg\<rparr>))))"

fun walmart_pages ::
  "walmart_doc fetch \<Rightarrow> int option \<Rightarrow> int \<Rightarrow> int list \<Rightarrow> Order list \<Rightarrow> io \<Rightarrow>
     (exn + Order list) \<times> io" where
  "walmart_pages fetch year endPage [] orders s = (Inr orders, s)"
| "walmart_pages fetch year endPage (i # pages) orders s =
     (case Walmart_processOrders fetch year i s of
        (Inl e, s1) \<Rightarrow> (Inl e, s1)
      | (Inr ordersPage, s1) \<Rightarrow>
          walmart_pages fetch year endPage pages (orders @ ordersPage)
            (onProgress \<lparr>phase = WalmartPageScan, total = endPage, complete = i\<rparr> s1))"

text \<open>
  \<open>WalmartProvider.fetchOrders\<close> in the same two parts. \<open>endPage\<close> starts at 1 and is
  replaced by \<open>maxPages\<close> only when that is given, not 0, and less than 1.
\<close>

definition Walmart_endPage :: "int option \<Rightarrow> int" where
  "Walmart_endPage maxPages =
     (case maxPages of
        None \<Rightarrow> 1
      | Some m \<Rightarrow> if m \<noteq> 0 \<and> m < 1 then m else 1)"

definition walmart_pageScan ::
  "walmart_doc fetch \<Rightarrow> int option \<Rightarrow> int option \<Rightarrow> io \<Rightarrow> (exn + Order list) \<times> io" where
  "walmart_pageScan fetch year maxPages s0 =
     (let url = WALMART_ORDER_PAGES_URL @ timeFilter ''?'' year;
          s1 = request url s0
      in case fetch url of
           Inl e \<Rightarrow> (Inl e, s1)
         | Inr (st, body) \<Rightarrow>
             (case body of
                Inl e \<Rightarrow> (Inl e, s1)
              | Inr d \<Rightarrow>
                  let endPage = Walmart_endPage maxPages;
                      s2 = onProgress \<lparr>phase = WalmartPageScan, total = endPage, complete = 0\<rparr> s1
                  in case Walmart_orderListFromPage d (io_log s2) of
                       (orders, lg) \<Rightarrow>
                         let s3 = onProgress
                                    \<lparr>phase = WalmartPageScan, total = endPage, complete = 1\<rparr>
                                    (s2\<lparr>io_log := lg\<rparr>)
                         in walmart_pages fetch year endPage [2..endPage] orders s3))"

definition Walmart_fetchOrders ::
  "walmart_doc fetch \<Rightarrow> nat list \<Rightarrow> int option \<Rightarrow> int option \<Rightarrow> io \<Rightarrow>
     (exn + Order list) \<times> io" where
  "Walmart_fetchOrders fetch schedule year maxPages s0 =
     (case walmart_pageScan fetch year maxPages s0 of
        (Inl e, s1) \<Rightarrow> (Inl e, s1)
      | (Inr orders, s1) \<Rightarrow>
          (case Throttle_all schedule
                  (processOrder (Walmart_fetchOrderTransactions fetch) WalmartOrderDownload
                     (length orders))
                  orders ([], s1) of
             (allOrders, s2) \<Rightarrow> (Inr allOrders, s2)))"

section \<open>Concrete documents\<close>

text \<open>Documents and network answers on which the theorems below are exercised.\<close>

definition network_error :: exn where
  "network_error = Exn ''TypeError'' ''Failed to fetch''"

definition amazon_empty_doc :: amazon_doc where
  "amazon_empty_doc =
     \<lparr>a_h1 = [], a_time_filter = [], a_pagination = [], a_order_cards = [], a_items = [],
      a_gift_card = [], a_detail_rows = []\<rparr>"

definition walmart_empty_doc :: walmart_doc where
  "walmart_empty_doc =
     \<lparr>w_mw3 = [], w_time_filter = [], w_order_groups = [], w_item_tiles = [], w_bills = []\<rparr>"

definition year_filter :: "string option list" where
  "year_filter =
     [Some ''last30'', Some ''months-3'', Some ''year-2023'', Some ''year-2021'',
      Some ''year-2022'', None]"

definition amazon_orders_doc :: amazon_doc where
  "amazon_orders_doc = amazon_empty_doc\<lparr>a_h1 := [''Your Orders''], a_time_filter := year_filter\<rparr>"

definition amazon_signin_doc :: amazon_doc where
  "amazon_signin_doc = amazon_empty_doc\<lparr>a_h1 := [''Sign in''], a_time_filter := year_filter\<rparr>"

definition amazon_nofilter_doc :: amazon_doc where
  "amazon_nofilter_doc =
     amazon_empty_doc\<lparr>a_h1 := [''Your Orders''], a_time_filter := [Some ''last30'', None]\<rparr>"

definition walmart_orders_doc :: walmart_doc where
  "walmart_orders_doc =
     walmart_empty_doc\<lparr>w_mw3 := [''Purchase history''], w_time_filter := year_filter\<rparr>"

definition walmart_signin_doc :: walmart_doc where
  "walmart_signin_doc =
     walmart_empty_doc\<lparr>w_mw3 := [''Sign In or create account''], w_time_filter := year_filter\<rparr>"

definition walmart_nofilter_doc :: walmart_doc where
  "walmart_nofilter_doc = walmart_empty_doc\<lparr>w_mw3 := [''Purchase history'']\<rparr>"

text \<open>A network that answers every request with the same document.\<close>

definition serve :: "'d \<Rightarrow> 'd fetch" where
  "serve d = (\<lambda>url. Inr (200, Inr d))"

definition offline :: "'d fetch" where
  "offline = (\<lambda>url. Inl network_error)"

text \<open>Listing pages with three entries, the second without an identifier.\<close>

definition amazon_listing_doc :: amazon_doc where
  "amazon_listing_doc = amazon_empty_doc\<lparr>a_order_cards :=
     [\<lparr>card_hrefs = [''/gp/product/B01'', ''/gp/order-details?orderID=111-222&ref=x''],
       card_values = ['' January 5, 2024 '', ''$12.00'']\<rparr>,
      \<lparr>card_hrefs = [''/gp/help''], card_values = [''February 1, 2024'']\<rparr>,
      \<lparr>card_hrefs = [''/x?orderID=333#top''], card_values = []\<rparr>]\<rparr>"

definition walmart_listing_doc :: walmart_doc where
  "walmart_listing_doc = walmart_empty_doc\<lparr>w_order_groups :=
     [\<lparr>return_hrefs = [Some ''/orders/12345/returns?orderSource=STORE''],
       h3_text = ''Jan 05, 2024 purchase''\<rparr>,
      \<lparr>return_hrefs = [], h3_text = ''Feb 01, 2024 purchase''\<rparr>,
      \<lparr>return_hrefs = [Some ''/orders/678/returns''], h3_text = ''Delivered''\<rparr>]\<rparr>"

text \<open>An Amazon listing page whose only card has no order link.\<close>

definition amazon_nolink_doc :: amazon_doc where
  "amazon_nolink_doc = amazon_empty_doc\<lparr>a_order_cards :=
     [\<lparr>card_hrefs = [''/gp/help''], card_values = [''February 1, 2024'']\<rparr>]\<rparr>"

text \<open>
  Listing pages whose only entry has a link that the identifier pattern does not match:
  nothing follows \<open>orderID=\<close>, and no \<open>/\<close> follows the run after \<open>orders/\<close>.
\<close>

definition amazon_unmatched_doc :: amazon_doc where
  "amazon_unmatched_doc = amazon_empty_doc\<lparr>a_order_cards :=
     [\<lparr>card_hrefs = [''/x?orderID=''], card_values = [''March 3, 2024'']\<rparr>]\<rparr>"

definition walmart_unmatched_doc :: walmart_doc where
  "walmart_unmatched_doc = walmart_empty_doc\<lparr>w_order_groups :=
     [\<lparr>return_hrefs = [Some ''/orders/123''], h3_text = ''Mar 03, 2024 purchase''\<rparr>]\<rparr>"

text \<open>
  A Walmart detail page with two items that are not refunded, one that is, a bill block
  that is not a refund and one that is; and an Amazon detail page with one item and a
  completed refund.
\<close>

definition walmart_detail_doc :: walmart_doc where
  "walmart_detail_doc = walmart_empty_doc\<lparr>
     w_item_tiles :=
       [\<lparr>product_names = [''Milk''], tile_prices = [''$3.50''], tile_category_label = ''Shopped''\<rparr>,
        \<lparr>product_names = [''Bread''], tile_prices = [''$2.25''], tile_category_label = ''Shopped''\<rparr>,
        \<lparr>product_names = [''Socks''], tile_prices = [''$9.99''],
          tile_category_label = ''Refunded''\<rparr>],
     w_bills :=
       [\<lparr>bill_date = ''Jan 05, 2024 order'', total_payments = [''$5.75''],
          bill_category_label = ''Shopped''\<rparr>,
        \<lparr>bill_date = ''Jan 09, 2024 order'', total_payments = [''-$9.99''],
          bill_category_label = ''Refunded''\<rparr>]\<rparr>"

definition listed_order :: "string \<Rightarrow> Order" where
  "listed_order i =
     \<lparr>order_id = i, order_date = ''January 5, 2024'', walmartStorePurchase = None,
      transactions = None\<rparr>"

definition walmart_item :: "string \<Rightarrow> rat \<Rightarrow> bool \<Rightarrow> Item" where
  "walmart_item t p r = \<lparr>orderId = Some ''77'', title = t, price = Num p, refunded = Some r\<rparr>"

definition amazon_refund_doc :: amazon_doc where
  "amazon_refund_doc = amazon_empty_doc\<lparr>
     a_items := [\<lparr>link_texts = [''Socks''], price_texts = [''$9.99'']\<rparr>],
     a_detail_rows := [''Refund: Completed January 9, 2024 - $9.99'']\<rparr>"

definition amazon_socks :: Item where
  "amazon_socks = \<lparr>orderId = None, title = ''Socks'', price = Num 9.99, refunded = None\<rparr>"

text \<open>
  A storefront with a listing of two pages, ten entries on the first and three on the
  second, whose detail requests fail for the identifiers in \<open>down\<close>; the tasks of a
  thirteen-order and of a ten-order run complete in the order \<open>completion\<close>.
\<close>

definition page1_ids :: "string list" where
  "page1_ids = [''101'', ''102'', ''103'', ''104'', ''105'', ''106'', ''107'', ''108'', ''109'', ''110'']"

definition page2_ids :: "string list" where
  "page2_ids = [''111'', ''112'', ''113'']"

definition amazon_listing_page :: "string list \<Rightarrow> amazon_doc" where
  "amazon_listing_page ids = amazon_empty_doc\<lparr>
     a_pagination := [''1'', ''2'', ''Next''],
     a_order_cards :=
       map (\<lambda>i. \<lparr>card_hrefs = [''/order-details?orderID='' @ i],
                  card_values = [''January 5, 2024'']\<rparr>) ids\<rparr>"

definition amazon_shop :: "string list \<Rightarrow> amazon_doc fetch" where
  "amazon_shop down url =
     (if url = AMAZON_ORDER_PAGES_URL then Inr (200, Inr (amazon_listing_page page1_ids))
      else if url = processOrders_url None 2 then Inr (200, Inr (amazon_listing_page page2_ids))
      else if url \<in> set (map (\<lambda>i. AMAZON_ORDER_DETAILS_URL @ ''?orderID='' @ i) down)
      then Inl network_error
      else Inr (200, Inr amazon_refund_doc))"

definition walmart_listing_page :: "string list \<Rightarrow> walmart_doc" where
  "walmart_listing_page ids = walmart_empty_doc\<lparr>
     w_order_groups :=
       map (\<lambda>i. \<lparr>return_hrefs = [Some (''/orders/'' @ i @ ''/returns'')],
                  h3_text = ''Jan 05, 2024 purchase''\<rparr>) ids\<rparr>"

definition walmart_listed :: "string \<Rightarrow> Order" where
  "walmart_listed i =
     \<lparr>order_id = i, order_date = ''Jan 05, 2024'', walmartStorePurchase = Some False,
      transactions = None\<rparr>"

definition walmart_shop :: "string list \<Rightarrow> walmart_doc fetch" where
  "walmart_shop down url =
     (if url = WALMART_ORDER_PAGES_URL then Inr (200, Inr (walmart_listing_page page1_ids))
      else if url = Walmart_processOrders_url None 2
      then Inr (200, Inr (walmart_listing_page page2_ids))
      else if url \<in> set (map (\<lambda>i. Walmart_orderUrl (walmart_listed i)) down)
      then Inl network_error
      else Inr (200, Inr walmart_detail_doc))"

definition completion13 :: "nat list" where
  "completion13 = [4, 0, 3, 1, 2, 9, 5, 8, 6, 7, 12, 10, 11]"

definition completion10 :: "nat list" where
  "completion10 = [4, 0, 3, 1, 2, 9, 5, 8, 6, 7]"

definition io0 :: io where
  "io0 = \<lparr>io_log = [], io_progress = [], io_requests = []\<rparr>"

section \<open>Strings and numbers\<close>

lemma startsWith_append [simp]: "startsWith (p @ s) p"
  by (induction p) auto

lemma startsWith_iff: "startsWith s p \<longleftrightarrow> (\<exists>r. s = p @ r)"
  by (induction s p rule: startsWith.induct) auto






lemma is_digit_not_special:
  "is_digit c \<Longrightarrow> \<not> is_whitespace c \<and> c \<noteq> CHR ''-'' \<and> c \<noteq> CHR ''+'' \<and> c \<noteq> CHR ''x'' \<and> c \<noteq> CHR ''X''"
  by (auto simp: is_digit_def is_whitespace_def)







lemma js_includes_startsWith: "startsWith s p \<Longrightarrow> js_includes s p"
  by (cases s; cases p) auto





lemmas ex_docs = amazon_empty_doc_def walmart_empty_doc_def year_filter_def amazon_orders_doc_def
  amazon_signin_doc_def amazon_nofilter_doc_def walmart_orders_doc_def walmart_signin_doc_def
  walmart_nofilter_doc_def serve_def offline_def network_error_def

section \<open>The auth probes: claims C5, C8, C9 and C10\<close>



text \<open>
  Claim C8. When the fetched document holds the provider's sign-in marker (an \<open>h1\<close>
  containing \<open>Sign in\<close> for Amazon, a \<open>.mw3\<close> element containing \<open>Sign In\<close> for Walmart),
  the auth probe returns \<open>NotLoggedIn\<close>, whatever else the document holds.
\<close>

theorem sign_in_marker_NotLoggedIn:
  "(fetch AMAZON_ORDER_PAGES_URL = Inr (st, Inr d)
      \<and> (\<exists>t \<in> set (a_h1 d). js_includes t ''Sign in'')
    \<longrightarrow> status (fst (checkAmazonAuth fetch log0)) = NotLoggedIn)
   \<and> (wfetch WALMART_ORDER_PAGES_URL = Inr (wst, Inr wd)
      \<and> (\<exists>t \<in> set (w_mw3 wd). js_includes t ''Sign In'')
    \<longrightarrow> status (fst (Walmart_doCheckAuth wfetch wlog)) = NotLoggedIn)"
proof -
  show ?thesis
    by (auto simp: checkAmazonAuth_def checkAmazonAuth_try_def Walmart_doCheckAuth_def
        Walmart_doCheckAuth_try_def Let_def filter_empty_conv)
qed

theorem sign_in_marker_NotLoggedIn_witness:
  "serve amazon_signin_doc AMAZON_ORDER_PAGES_URL = Inr (200, Inr amazon_signin_doc)
   \<and> js_includes (hd (a_h1 amazon_signin_doc)) ''Sign in''
   \<and> status (fst (checkAmazonAuth (serve amazon_signin_doc) [])) = NotLoggedIn
   \<and> js_includes (hd (w_mw3 walmart_signin_doc)) ''Sign In''
   \<and> status (fst (Walmart_doCheckAuth (serve walmart_signin_doc) [])) = NotLoggedIn"
  using sign_in_marker_NotLoggedIn [of "serve amazon_signin_doc" 200 amazon_signin_doc "[]"
      "serve walmart_signin_doc" 200 walmart_signin_doc "[]"]
  by (simp add: ex_docs)

text \<open>
  Claim C9. When the fetch or the reading of the response raises an exception inside an
  auth probe, the probe returns the status \<open>Failure\<close> as a value and appends one
  diagnostic entry naming the exception to the log.
\<close>

theorem auth_exception_is_Failure:
  "(fetch AMAZON_ORDER_PAGES_URL = Inl e \<or> fetch AMAZON_ORDER_PAGES_URL = Inr (st, Inl e)
    \<longrightarrow> fst (checkAmazonAuth fetch log0) = \<lparr>status = Failure, startingYear = None\<rparr>
        \<and> fst (checkAmazonAuth_try fetch log0) = Inl e
        \<and> snd (checkAmazonAuth fetch log0) = snd (checkAmazonAuth_try fetch log0) @
            [LogString (''Amazon auth failed with error: '' @ exn_toString e)])
   \<and> (wfetch WALMART_ORDER_PAGES_URL = Inl e \<or> wfetch WALMART_ORDER_PAGES_URL = Inr (wst, Inl e)
    \<longrightarrow> fst (Walmart_doCheckAuth wfetch wlog) = \<lparr>status = Failure, startingYear = None\<rparr>
        \<and> fst (Walmart_doCheckAuth_try wfetch wlog) = Inl e
        \<and> snd (Walmart_doCheckAuth wfetch wlog) =
            wlog @ [LogString (''Walmart auth failed with error: '' @ exn_toString e)])"
  by (auto simp: checkAmazonAuth_def checkAmazonAuth_try_def Walmart_doCheckAuth_def
      Walmart_doCheckAuth_try_def Let_def)

theorem auth_exception_is_Failure_witness:
  "fst (checkAmazonAuth offline []) = \<lparr>status = Failure, startingYear = None\<rparr>
   \<and> snd (checkAmazonAuth offline []) =
        [LogString ''Checking Amazon auth'',
         LogString ''Amazon auth failed with error: TypeError: Failed to fetch'']
   \<and> fst (Walmart_doCheckAuth offline []) = \<lparr>status = Failure, startingYear = None\<rparr>
   \<and> snd (Walmart_doCheckAuth offline []) =
        [LogString ''Walmart auth failed with error: TypeError: Failed to fetch'']"
  using auth_exception_is_Failure [of offline network_error 0 "[]" offline 0 "[]"]
  by (simp add: ex_docs checkAmazonAuth_try_def)



section \<open>Amount parsing: claim C6\<close>

lemmas chars = is_digit_def is_whitespace_def digit_val_def digits_value_def
lemmas pf = parseFloat_def unsigned_literal_def decimal_value_def exponent_part_def scale10_def chars

lemma is_digit_cases:
  "is_digit c \<Longrightarrow> c \<noteq> CHR ''.'' \<and> c \<noteq> CHR ''I'' \<and> c \<noteq> CHR ''$''"
  by (auto simp: is_digit_def)

lemma unsigned_literal_decimal:
  assumes ip: "ip \<noteq> []" "\<forall>c \<in> set ip. is_digit c" and fp: "\<forall>c \<in> set fp. is_digit c"
  shows "unsigned_literal (ip @ (if fp = [] then [] else CHR ''.'' # fp)) =
    Num (decimal_value ip fp)"
proof -
  define u where "u = ip @ (if fp = [] then [] else CHR ''.'' # fp)"
  obtain c ip' where c: "ip = c # ip'" using ip(1) by (cases ip) auto
  then have dc: "is_digit c" using ip(2) by simp
  have inf: "\<not> startsWith u ''Infinity''"
    using is_digit_cases [OF dc] by (simp add: u_def c)
  have tw: "takeWhile is_digit u = ip"
    using ip(2) by (simp add: u_def takeWhile_append2 is_digit_def)
  have dw: "dropWhile is_digit u = (if fp = [] then [] else CHR ''.'' # fp)"
    using ip(2) by (simp add: u_def dropWhile_append2 is_digit_def)
  have twf: "takeWhile is_digit fp = fp" using fp by (simp add: takeWhile_eq_all_conv)
  have dwf: "dropWhile is_digit fp = []" using fp by simp
  have ex: "exponent_part [] = 0" by (simp add: exponent_part_def)
  have "unsigned_literal u = Num (decimal_value ip fp)"
    unfolding unsigned_literal_def tw dw Let_def using ip(1) inf
    by (cases "fp = []")
      (simp_all add: scale10_def twf dwf ex del: takeWhile_eq_all_conv dropWhile_eq_Nil_conv)
  then show ?thesis by (simp add: u_def)
qed

lemma parseFloat_decimal:
  assumes ip: "ip \<noteq> []" "\<forall>c \<in> set ip. is_digit c" and fp: "\<forall>c \<in> set fp. is_digit c"
  defines "u \<equiv> ip @ (if fp = [] then [] else CHR ''.'' # fp)"
  shows "parseFloat u = Num (decimal_value ip fp)"
    and "parseFloat (CHR ''-'' # u) = Num (- decimal_value ip fp)"
proof -
  obtain c ip' where c: "ip = c # ip'" using ip(1) by (cases ip) auto
  then have dc: "is_digit c" using ip(2) by simp
  have ws: "dropWhile is_whitespace u = u"
    using is_digit_not_special [OF dc] by (simp add: u_def c)
  have sg: "\<not> startsWith u ''-''" "\<not> startsWith u ''+''"
    using is_digit_not_special [OF dc] by (simp_all add: u_def c)
  have lit: "unsigned_literal u = Num (decimal_value ip fp)"
    unfolding u_def by (rule unsigned_literal_decimal [OF ip fp])
  show "parseFloat u = Num (decimal_value ip fp)"
    unfolding parseFloat_def ws Let_def using sg lit by simp
  have ws': "dropWhile is_whitespace (CHR ''-'' # u) = CHR ''-'' # u"
    by (simp add: is_whitespace_def)
  show "parseFloat (CHR ''-'' # u) = Num (- decimal_value ip fp)"
    unfolding parseFloat_def ws' Let_def using lit by simp
qed

lemma unsigned_literal_no_digit:
  assumes u: "\<forall>c \<in> set u. \<not> is_digit c \<and> c \<noteq> CHR ''I''"
  shows "unsigned_literal u = NaN"
proof -
  have inf: "\<not> startsWith u ''Infinity''"
    using u by (cases u) auto
  have tw: "takeWhile is_digit u = []" and dw: "dropWhile is_digit u = u"
    using u by (cases u; simp)+
  have fp: "takeWhile is_digit (tl u) = []"
    using u by (cases u; cases "tl u") auto
  show ?thesis
    unfolding unsigned_literal_def Let_def tw dw using inf fp by simp
qed

lemma parseFloat_no_digit:
  assumes "\<forall>c \<in> set s. \<not> is_digit c \<and> c \<noteq> CHR ''I''"
  shows "parseFloat s = NaN"
proof -
  define t where "t = dropWhile is_whitespace s"
  have t: "\<forall>c \<in> set t. \<not> is_digit c \<and> c \<noteq> CHR ''I''"
    using assms set_dropWhileD unfolding t_def by fast
  then have tl: "\<forall>c \<in> set (tl t). \<not> is_digit c \<and> c \<noteq> CHR ''I''"
    by (cases t) auto
  show ?thesis
    unfolding parseFloat_def Let_def t_def [symmetric]
    by (simp add: unsigned_literal_no_digit [OF t] unsigned_literal_no_digit [OF tl])
qed

lemma Walmart_parseAmount_decimal:
  assumes "ip \<noteq> []" and "\<forall>c \<in> set ip. is_digit c" and "\<forall>c \<in> set fp. is_digit c"
    and f: "filter (\<lambda>c. is_digit c \<or> c = CHR ''.'' \<or> c = CHR ''-'') s =
          (if neg then ''-'' else []) @ ip @ (if fp = [] then [] else CHR ''.'' # fp)"
  shows "Walmart_parseAmount s = Num (if neg then - decimal_value ip fp else decimal_value ip fp)"
proof -
  have "filter (\<lambda>c. is_digit c \<or> c = CHR ''.'' \<or> c = CHR ''-'') s \<noteq> []"
    unfolding f using assms(1) by simp
  then have ne: "s \<noteq> []" by (cases s) simp_all
  have "parseFloat ((if neg then ''-'' else []) @ ip @ (if fp = [] then [] else CHR ''.'' # fp))
      = Num (if neg then - decimal_value ip fp else decimal_value ip fp)"
    using parseFloat_decimal [OF assms(1-3)] by (cases neg) simp_all
  then show ?thesis
    unfolding Walmart_parseAmount_def f using ne by simp
qed

lemma Walmart_parseAmount_no_digit:
  assumes "s \<noteq> []" and "\<forall>c \<in> set s. \<not> is_digit c"
  shows "Walmart_parseAmount s = NaN"
proof -
  have "\<forall>c \<in> set (filter (\<lambda>c. is_digit c \<or> c = CHR ''.'' \<or> c = CHR ''-'') s).
      \<not> is_digit c \<and> c \<noteq> CHR ''I''"
    using assms(2) by auto
  then have "parseFloat (filter (\<lambda>c. is_digit c \<or> c = CHR ''.'' \<or> c = CHR ''-'') s) = NaN"
    by (rule parseFloat_no_digit)
  then show ?thesis
    unfolding Walmart_parseAmount_def using assms(1) by simp
qed

lemma moneyToNumber_decimal:
  assumes "ip \<noteq> []" and "\<forall>c \<in> set ip. is_digit c" and "\<forall>c \<in> set fp. is_digit c"
    and f: "filter (\<lambda>c. \<not> (c = CHR ''$'' \<or> is_whitespace c \<or> c = CHR ''-'')) money =
          ip @ (if fp = [] then [] else CHR ''.'' # fp)"
  shows "moneyToNumber (Some money) True = Num (decimal_value ip fp)"
proof -
  have "moneyToNumber (Some money) True =
      parseFloat (filter (\<lambda>c. \<not> (c = CHR ''$'' \<or> is_whitespace c \<or> c = CHR ''-'')) money)"
    by (simp add: moneyToNumber_def)
  also have "\<dots> = Num (decimal_value ip fp)"
    unfolding f by (rule parseFloat_decimal(1) [OF assms(1-3)])
  finally show ?thesis .
qed

lemma moneyToNumber_no_digit:
  assumes "\<forall>c \<in> set money. \<not> is_digit c \<and> c \<noteq> CHR ''I''"
  shows "moneyToNumber (Some money) absoluteValue = NaN"
proof -
  have "parseFloat (filter P money) = NaN" for P
    using assms by (intro parseFloat_no_digit) simp
  then show ?thesis
    by (simp add: moneyToNumber_def)
qed

lemma moneyToNumber_undefined: "moneyToNumber None absoluteValue = NaN"
proof -
  have "parseFloat ''undefined'' = NaN"
    by (rule parseFloat_no_digit) (simp add: is_digit_def)
  then show ?thesis by (simp add: moneyToNumber_def)
qed

text \<open>
  Claim C6, as the code has it. Walmart's amount expression removes every character
  other than digits, \<open>.\<close> and \<open>-\<close>: a text whose remaining characters are an optional
  \<open>-\<close>, digits and an optional fraction yields that signed decimal value, the empty text
  yields 0, and a non-empty text without a digit yields \<open>NaN\<close>. Amazon's
  \<open>moneyToNumber\<close> with its default \<open>absoluteValue\<close> removes \<open>$\<close>, white space and \<open>-\<close>,
  so that the sign is dropped: a text whose remaining characters are digits and an
  optional fraction yields that unsigned decimal value, and an absent text, or a text
  without a digit and without \<open>I\<close>, yields \<open>NaN\<close>. Every result is a value.
\<close>

theorem amount_parsing:
  "(ip \<noteq> [] \<and> (\<forall>c \<in> set ip. is_digit c) \<and> (\<forall>c \<in> set fp. is_digit c)
      \<and> filter (\<lambda>c. is_digit c \<or> c = CHR ''.'' \<or> c = CHR ''-'') s =
          (if neg then ''-'' else []) @ ip @ (if fp = [] then [] else CHR ''.'' # fp)
    \<longrightarrow> Walmart_parseAmount s =
          Num (if neg then - decimal_value ip fp else decimal_value ip fp))
   \<and> Walmart_parseAmount [] = Num 0
   \<and> (s' \<noteq> [] \<and> (\<forall>c \<in> set s'. \<not> is_digit c) \<longrightarrow> Walmart_parseAmount s' = NaN)
   \<and> (ip \<noteq> [] \<and> (\<forall>c \<in> set ip. is_digit c) \<and> (\<forall>c \<in> set fp. is_digit c)
      \<and> filter (\<lambda>c. \<not> (c = CHR ''$'' \<or> is_whitespace c \<or> c = CHR ''-'')) money =
          ip @ (if fp = [] then [] else CHR ''.'' # fp)
    \<longrightarrow> moneyToNumber (Some money) True = Num (decimal_value ip fp))
   \<and> moneyToNumber None absoluteValue = NaN
   \<and> ((\<forall>c \<in> set money'. \<not> is_digit c \<and> c \<noteq> CHR ''I'')
    \<longrightarrow> moneyToNumber (Some money') absoluteValue = NaN)"
proof (intro conjI impI; (elim conjE)?)
  show "Walmart_parseAmount [] = Num 0"
    by (simp add: Walmart_parseAmount_def)
  show "moneyToNumber None absoluteValue = NaN"
    by (rule moneyToNumber_undefined)
qed (erule (3) Walmart_parseAmount_decimal, erule (1) Walmart_parseAmount_no_digit,
    erule (3) moneyToNumber_decimal, erule moneyToNumber_no_digit)

theorem amount_parsing_witness:
  "Walmart_parseAmount ''-$1,234.56'' = Num (- 1234.56)
   \<and> Walmart_parseAmount '''' = Num 0
   \<and> Walmart_parseAmount ''N/A'' = NaN
   \<and> moneyToNumber (Some ''$ 1234.56'') True = Num 1234.56
   \<and> moneyToNumber None True = NaN
   \<and> moneyToNumber (Some ''n/a'') True = NaN"
proof -
  have v: "decimal_value ''1234'' ''56'' = 1234.56"
    by (simp add: decimal_value_def chars)
  have d: "\<forall>c \<in> set ''1234''. is_digit c" "\<forall>c \<in> set ''56''. is_digit c"
    "\<forall>c \<in> set ''N/A''. \<not> is_digit c" "\<forall>c \<in> set ''n/a''. \<not> is_digit c \<and> c \<noteq> CHR ''I''"
    by (simp_all add: is_digit_def)
  have f: "filter (\<lambda>c. is_digit c \<or> c = CHR ''.'' \<or> c = CHR ''-'') ''-$1,234.56'' =
      ''-'' @ ''1234'' @ CHR ''.'' # ''56''"
    "filter (\<lambda>c. \<not> (c = CHR ''$'' \<or> is_whitespace c \<or> c = CHR ''-'')) ''$ 1234.56'' =
      ''1234'' @ CHR ''.'' # ''56''"
    by (simp_all add: chars)
  show ?thesis
    using amount_parsing [where ip = "''1234''" and fp = "''56''" and neg = True
      and s = "''-$1,234.56''" and s' = "''N/A''" and money = "''$ 1234.56''"
      and money' = "''n/a''" and absoluteValue = True]
    unfolding v using d f by simp
qed

text \<open>
  Claim C6 as stated fails on Amazon's \<open>moneyToNumber\<close>: the sign of a negative amount
  is not preserved.
\<close>

theorem moneyToNumber_drops_sign:
  "moneyToNumber (Some ''-$5.00'') True = Num 5
   \<and> moneyToNumber (Some ''-$5.00'') True \<noteq> Num (- 5)"
proof -
  have "filter (\<lambda>c. \<not> (c = CHR ''$'' \<or> is_whitespace c \<or> c = CHR ''-'')) ''-$5.00'' = ''5.00''"
    by (simp add: is_whitespace_def)
  moreover have "parseFloat ''5.00'' = Num 5"
    by (simp add: pf)
  ultimately have "moneyToNumber (Some ''-$5.00'') True = Num 5"
    by (simp add: moneyToNumber_def)
  then show ?thesis by simp
qed

text \<open>
  A thousands separator is not removed by \<open>moneyToNumber\<close> and ends the literal that
  \<open>parseFloat\<close> reads; Walmart's expression removes it.
\<close>

lemma moneyToNumber_thousands_separator:
  "moneyToNumber (Some ''$1,234.56'') True = Num 1
   \<and> Walmart_parseAmount ''$1,234.56'' = Num 1234.56"
proof -
  have "filter (\<lambda>c. \<not> (c = CHR ''$'' \<or> is_whitespace c \<or> c = CHR ''-'')) ''$1,234.56''
      = ''1,234.56''"
    by (simp add: is_whitespace_def)
  moreover have "parseFloat ''1,234.56'' = Num 1"
    by (simp add: pf)
  moreover have "filter (\<lambda>c. is_digit c \<or> c = CHR ''.'' \<or> c = CHR ''-'') ''$1,234.56''
      = ''1234.56''"
    by (simp add: is_digit_def)
  moreover have "parseFloat ''1234.56'' = Num 1234.56"
    by (simp add: pf)
  ultimately show ?thesis
    by (simp add: moneyToNumber_def Walmart_parseAmount_def)
qed

section \<open>Listing extraction: claim C7\<close>

lemma greedy_then_group:
  assumes "\<And>s g r. x s = Some (g, r) \<Longrightarrow> g \<noteq> []"
  shows "greedy_then x s = Some (g, r) \<Longrightarrow> g \<noteq> []"
  using assms by (induction s) (auto split: if_splits option.splits)

lemma replace_match_nonempty:
  assumes "\<And>s g r. m s = Some (g, r) \<Longrightarrow> g \<noteq> []" and "s \<noteq> []"
  shows "replace_match m s \<noteq> []"
  using assms by (cases s) (auto split: option.splits)

lemma orderID_at_group: "orderID_at s = Some (g, r) \<Longrightarrow> g \<noteq> []"
  by (auto simp: orderID_at_def Let_def split: if_splits)

lemma orders_at_group: "orders_at s = Some (g, r) \<Longrightarrow> g \<noteq> []"
  by (auto simp: orders_at_def Let_def split: if_splits)

lemma js_includes_nonempty: "js_includes h p \<Longrightarrow> p \<noteq> [] \<Longrightarrow> h \<noteq> []"
  by (cases h) auto

lemma amazon_card_id_nonempty: "amazon_card_id el = Some i \<Longrightarrow> i \<noteq> []"
proof -
  assume a: "amazon_card_id el = Some i"
  then obtain h hs where f: "filter (\<lambda>h. js_includes h ''orderID='') (card_hrefs el) = h # hs"
    and i: "i = replace_match (greedy_then orderID_at) h"
    by (auto simp: amazon_card_id_def amazon_orderLink_def split: list.splits)
  have "h \<in> set (filter (\<lambda>h. js_includes h ''orderID='') (card_hrefs el))"
    unfolding f by simp
  then have "js_includes h ''orderID=''" by simp
  then have "h \<noteq> []" by (rule js_includes_nonempty) simp
  moreover have "\<And>s g r. greedy_then orderID_at s = Some (g, r) \<Longrightarrow> g \<noteq> []"
    by (rule greedy_then_group [OF orderID_at_group])
  ultimately show "i \<noteq> []"
    unfolding i by (rule replace_match_nonempty [rotated])
qed

lemma walmart_group_id_truthy:
  "truthy (walmart_group_id el) \<longleftrightarrow> truthy (walmart_returnLink el)"
proof (cases "walmart_returnLink el")
  case None
  then show ?thesis by (simp add: walmart_group_id_def)
next
  case (Some h)
  have "\<And>s g r. greedy_then orders_at s = Some (g, r) \<Longrightarrow> g \<noteq> []"
    by (rule greedy_then_group [OF orders_at_group])
  then have "h \<noteq> [] \<Longrightarrow> replace_match (greedy_then orders_at) h \<noteq> []"
    by (rule replace_match_nonempty)
  moreover have "replace_match (greedy_then orders_at) [] = []"
    by (simp add: orders_at_def)
  ultimately show ?thesis using Some by (auto simp: walmart_group_id_def)
qed

lemma amazon_cards_eq:
  "amazon_cards els orders lg =
     (orders @ map amazon_order_of (filter (\<lambda>el. amazon_card_id el \<noteq> None) els), lg)"
proof (induction els arbitrary: orders)
  case Nil
  then show ?case by simp
next
  case (Cons el els)
  show ?case
  proof (cases "amazon_card_id el")
    case None
    then show ?thesis using Cons by simp
  next
    case (Some i)
    then have "i \<noteq> []" by (rule amazon_card_id_nonempty)
    then show ?thesis using Some Cons by (simp add: amazon_order_of_def)
  qed
qed

lemma walmart_groups_eq:
  "walmart_groups els orders lg =
     (orders @ map walmart_order_of (filter (\<lambda>el. truthy (walmart_group_id el)) els),
      lg @ replicate (length (filter (\<lambda>el. \<not> truthy (walmart_group_id el)) els))
             (LogString ''No order ID found in orderGroup-* element''))"
proof (induction els arbitrary: orders lg)
  case Nil
  then show ?case by simp
next
  case (Cons el els)
  show ?case
  proof (cases "truthy (walmart_group_id el)")
    case True
    then show ?thesis using Cons by (simp add: walmart_order_of_def Let_def)
  next
    case False
    then show ?thesis using Cons by (simp add: Let_def replicate_app_Cons_same)
  qed
qed

lemma startsWith_drop_includes: "startsWith (drop n s) p \<Longrightarrow> js_includes s p"
proof (induction s arbitrary: n)
  case Nil
  then show ?case by (cases p) simp_all
next
  case (Cons c cs)
  then show ?case by (cases n) auto
qed

lemma greedy_then_None: "(\<And>n. x (drop n s) = None) \<Longrightarrow> greedy_then x s = None"
proof (induction s)
  case Nil
  then show ?case using Nil [of 0] by simp
next
  case (Cons c cs)
  have "x (c # cs) = None" using Cons.prems [of 0] by simp
  moreover have "greedy_then x cs = None"
  proof (rule Cons.IH)
    fix n show "x (drop n cs) = None" using Cons.prems [of "Suc n"] by simp
  qed
  ultimately show ?case by simp
qed

lemma greedy_then_prefix:
  "\<forall>c \<in> set pre. \<not> is_line_terminator c \<Longrightarrow> greedy_then x s = Some r \<Longrightarrow>
     greedy_then x (pre @ s) = Some r"
  by (induction pre) simp_all

lemma replace_match_head: "m h = Some (g, rest) \<Longrightarrow> replace_match m h = g @ rest"
  by (cases h) simp_all

lemma orderID_at_None: "\<not> js_includes s ''orderID='' \<Longrightarrow> greedy_then orderID_at s = None"
proof (rule greedy_then_None)
  fix n
  assume a: "\<not> js_includes s ''orderID=''"
  have "\<not> startsWith (drop n s) ''orderID=''"
    using a startsWith_drop_includes by blast
  then show "orderID_at (drop n s) = None" by (simp add: orderID_at_def)
qed

lemma orders_at_None: "\<not> js_includes s ''orders/'' \<Longrightarrow> greedy_then orders_at s = None"
proof (rule greedy_then_None)
  fix n
  assume a: "\<not> js_includes s ''orders/''"
  have "\<not> startsWith (drop n s) ''orders/''"
    using a startsWith_drop_includes by blast
  then show "orders_at (drop n s) = None" by (simp add: orders_at_def)
qed

lemma dropWhile_no_terminator:
  "\<forall>c \<in> set s. \<not> is_line_terminator c \<Longrightarrow> dropWhile (\<lambda>c. \<not> is_line_terminator c) s = []"
  by simp

lemma takeWhile_run:
  assumes "\<forall>c \<in> set g. P c" and "rest = [] \<or> \<not> P (hd rest)"
  shows "takeWhile P (g @ rest) = g \<and> dropWhile P (g @ rest) = rest"
proof (cases rest)
  case Nil
  have "takeWhile P g = g" using assms(1) by (induction g) simp_all
  moreover have "dropWhile P g = []" using assms(1) by (induction g) simp_all
  ultimately show ?thesis using Nil by simp
next
  case (Cons c cs)
  then have "\<not> P c" using assms(2) by simp
  then show ?thesis
    using assms(1) Cons by (simp add: takeWhile_append2 dropWhile_append2)
qed

lemma orderID_at_head:
  assumes g: "g \<noteq> []" "\<forall>c \<in> set g. c \<noteq> CHR ''&'' \<and> c \<noteq> CHR ''#''"
    and rest: "rest = [] \<or> hd rest = CHR ''&'' \<or> hd rest = CHR ''#''"
    and nl: "\<forall>c \<in> set rest. \<not> is_line_terminator c"
  shows "orderID_at (''orderID='' @ g @ rest) = Some (g, [])"
proof -
  have "takeWhile (\<lambda>c. c \<noteq> CHR ''&'' \<and> c \<noteq> CHR ''#'') (g @ rest) = g
      \<and> dropWhile (\<lambda>c. c \<noteq> CHR ''&'' \<and> c \<noteq> CHR ''#'') (g @ rest) = rest"
    using g(2) rest by (intro takeWhile_run) auto
  then show ?thesis
    using g(1) dropWhile_no_terminator [OF nl]
    by (simp add: orderID_at_def del: takeWhile_eq_all_conv dropWhile_eq_Nil_conv)
qed

lemma greedy_orderID_head:
  assumes g: "g \<noteq> []" "\<forall>c \<in> set g. c \<noteq> CHR ''&'' \<and> c \<noteq> CHR ''#''"
    and rest: "rest = [] \<or> hd rest = CHR ''&'' \<or> hd rest = CHR ''#''"
    and nl: "\<forall>c \<in> set rest. \<not> is_line_terminator c"
    and last: "\<not> js_includes (g @ rest) ''orderID=''"
  shows "greedy_then orderID_at (''orderID='' @ g @ rest) = Some (g, [])"
proof -
  have tail: "greedy_then orderID_at (g @ rest) = None"
    using last by (rule orderID_at_None)
  have inner: "greedy_then orderID_at (''rderID='' @ g @ rest) = None"
    using tail by (simp add: orderID_at_def is_line_terminator_def)
  have head: "orderID_at (''orderID='' @ g @ rest) = Some (g, [])"
    using g rest nl by (rule orderID_at_head)
  have "greedy_then orderID_at (CHR ''o'' # ''rderID='' @ g @ rest) = Some (g, [])"
    using inner head by (simp add: is_line_terminator_def)
  then show ?thesis by simp
qed

lemma amazon_href_id:
  assumes "amazon_href_carries h g"
  shows "replace_match (greedy_then orderID_at) h = g"
proof -
  from assms obtain pre rest where h: "h = pre @ ''orderID='' @ g @ rest"
    and g: "g \<noteq> []" "\<forall>c \<in> set g. c \<noteq> CHR ''&'' \<and> c \<noteq> CHR ''#''"
    and rest: "rest = [] \<or> hd rest = CHR ''&'' \<or> hd rest = CHR ''#''"
    and last: "\<not> js_includes (g @ rest) ''orderID=''"
    and nl: "\<forall>c \<in> set h. \<not> is_line_terminator c"
    unfolding amazon_href_carries_def by blast
  have "\<forall>c \<in> set rest. \<not> is_line_terminator c" using nl h by simp
  then have "greedy_then orderID_at (''orderID='' @ g @ rest) = Some (g, [])"
    using g rest last by (intro greedy_orderID_head)
  moreover have "\<forall>c \<in> set pre. \<not> is_line_terminator c" using nl h by simp
  ultimately have "greedy_then orderID_at h = Some (g, [])"
    unfolding h by (rule greedy_then_prefix [rotated])
  then show ?thesis using replace_match_head [of "greedy_then orderID_at" h g "[]"] by simp
qed

lemma orders_at_head:
  assumes g: "g \<noteq> []" "\<forall>c \<in> set g. c \<noteq> CHR ''/''"
    and nl: "\<forall>c \<in> set rest. \<not> is_line_terminator c"
  shows "orders_at (''orders/'' @ g @ ''/'' @ rest) = Some (g, [])"
proof -
  have "takeWhile (\<lambda>c. c \<noteq> CHR ''/'') (g @ CHR ''/'' # rest) = g
      \<and> dropWhile (\<lambda>c. c \<noteq> CHR ''/'') (g @ CHR ''/'' # rest) = CHR ''/'' # rest"
    using g(2) by (intro takeWhile_run) auto
  then show ?thesis
    using g(1) dropWhile_no_terminator [OF nl]
    by (simp add: orders_at_def del: takeWhile_eq_all_conv dropWhile_eq_Nil_conv)
qed

lemma greedy_orders_head:
  assumes g: "g \<noteq> []" "\<forall>c \<in> set g. c \<noteq> CHR ''/''"
    and nl: "\<forall>c \<in> set rest. \<not> is_line_terminator c"
    and last: "\<not> js_includes (g @ ''/'' @ rest) ''orders/''"
  shows "greedy_then orders_at (''orders/'' @ g @ ''/'' @ rest) = Some (g, [])"
proof -
  have tail: "greedy_then orders_at (g @ ''/'' @ rest) = None"
    using last by (rule orders_at_None)
  have inner: "greedy_then orders_at (''rders/'' @ g @ ''/'' @ rest) = None"
    using tail by (simp add: orders_at_def is_line_terminator_def)
  have head: "orders_at (''orders/'' @ g @ ''/'' @ rest) = Some (g, [])"
    using g nl by (rule orders_at_head)
  have "greedy_then orders_at (CHR ''o'' # ''rders/'' @ g @ ''/'' @ rest) = Some (g, [])"
    using inner head by (simp add: is_line_terminator_def)
  then show ?thesis by simp
qed

lemma walmart_href_id:
  assumes "walmart_href_carries h g"
  shows "replace_match (greedy_then orders_at) h = g"
proof -
  from assms obtain pre rest where h: "h = pre @ ''orders/'' @ g @ ''/'' @ rest"
    and g: "g \<noteq> []" "\<forall>c \<in> set g. c \<noteq> CHR ''/''"
    and last: "\<not> js_includes (g @ ''/'' @ rest) ''orders/''"
    and nl: "\<forall>c \<in> set h. \<not> is_line_terminator c"
    unfolding walmart_href_carries_def by blast
  have "\<forall>c \<in> set rest. \<not> is_line_terminator c" using nl h by simp
  then have "greedy_then orders_at (''orders/'' @ g @ ''/'' @ rest) = Some (g, [])"
    using g last by (intro greedy_orders_head)
  moreover have "\<forall>c \<in> set pre. \<not> is_line_terminator c" using nl h by simp
  ultimately have "greedy_then orders_at h = Some (g, [])"
    unfolding h by (rule greedy_then_prefix [rotated])
  then show ?thesis using replace_match_head [of "greedy_then orders_at" h g "[]"] by simp
qed

lemma amazon_entry_ids:
  assumes "list_all2 amazon_entry els ids"
  shows "map (\<lambda>el. order_id (amazon_order_of el)) (filter (\<lambda>el. amazon_orderLink el \<noteq> None) els) =
     map the (filter (\<lambda>i. i \<noteq> None) ids)"
  using assms
proof (induction rule: list_all2_induct)
  case Nil
  then show ?case by simp
next
  case (Cons el els i ids)
  show ?case
  proof (cases i)
    case None
    then show ?thesis using Cons by simp
  next
    case (Some g)
    then obtain h where h: "amazon_orderLink el = Some h" and c: "amazon_href_carries h g"
      using Cons.hyps(1) by auto
    have "order_id (amazon_order_of el) = g"
      using amazon_href_id [OF c] h by (simp add: amazon_order_of_def amazon_card_id_def)
    then show ?thesis using Cons.IH Some h by simp
  qed
qed

lemma walmart_entry_ids:
  assumes "list_all2 walmart_entry els ids"
  shows "map (\<lambda>el. order_id (walmart_order_of el)) (filter (\<lambda>el. truthy (walmart_returnLink el)) els) =
       map the (filter (\<lambda>i. i \<noteq> None) ids)
     \<and> length (filter (\<lambda>el. \<not> truthy (walmart_returnLink el)) els) =
       length (filter (\<lambda>i. i = None) ids)"
  using assms
proof (induction rule: list_all2_induct)
  case Nil
  then show ?case by simp
next
  case (Cons el els i ids)
  show ?case
  proof (cases i)
    case None
    then show ?thesis using Cons by simp
  next
    case (Some g)
    then obtain h where h: "walmart_returnLink el = Some h" and c: "walmart_href_carries h g"
      using Cons.hyps(1) by auto
    have g: "g \<noteq> []" using c unfolding walmart_href_carries_def by blast
    have id: "replace_match (greedy_then orders_at) h = g" using c by (rule walmart_href_id)
    have "h \<noteq> []" using c unfolding walmart_href_carries_def by auto
    then have t: "truthy (walmart_returnLink el)" using h by simp
    have "order_id (walmart_order_of el) = g"
      using id h by (simp add: walmart_order_of_def walmart_group_id_def)
    then show ?thesis using Cons.IH Some t by simp
  qed
qed

text \<open>
  Claim C7, as the code has it. Take a listing document each of whose entries either
  carries a recoverable identifier (Amazon: the last \<open>orderID=\<close> of the card's first order
  link is followed by a non-empty run of characters other than \<open>&\<close> and \<open>#\<close>; Walmart: the
  last \<open>orders/\<close> of the group's first return link is followed by a non-empty run of
  characters other than \<open>/\<close> and then \<open>/\<close>) or has no identifier link at all. Listing
  extraction returns, in document order, exactly one order for each entry of the first
  kind, its identifier that run of characters and so not empty, and leaves the entries
  of the second kind out. Walmart appends one diagnostic entry for each entry left out;
  Amazon appends none. \<open>aids\<close> and \<open>wids\<close> list what the entries carry.
\<close>

theorem listing_extraction:
  assumes amazon: "list_all2 amazon_entry (a_order_cards d) aids"
    and walmart: "list_all2 walmart_entry (w_order_groups wd) wids"
  shows "fst (orderListFromPage d lg) =
      map amazon_order_of (filter (\<lambda>el. amazon_orderLink el \<noteq> None) (a_order_cards d))
   \<and> map order_id (fst (orderListFromPage d lg)) = map the (filter (\<lambda>i. i \<noteq> None) aids)
   \<and> (\<forall>ord \<in> set (fst (orderListFromPage d lg)). order_id ord \<noteq> [])
   \<and> snd (orderListFromPage d lg) = lg
   \<and> fst (Walmart_orderListFromPage wd lg) =
      map walmart_order_of (filter (\<lambda>el. truthy (walmart_returnLink el)) (w_order_groups wd))
   \<and> map order_id (fst (Walmart_orderListFromPage wd lg)) =
      map the (filter (\<lambda>i. i \<noteq> None) wids)
   \<and> (\<forall>ord \<in> set (fst (Walmart_orderListFromPage wd lg)). order_id ord \<noteq> [])
   \<and> snd (Walmart_orderListFromPage wd lg) =
      lg @ replicate (length (filter (\<lambda>i. i = None) wids))
        (LogString ''No order ID found in orderGroup-* element'')"
proof -
  have pa: "(\<lambda>el. amazon_card_id el \<noteq> None) = (\<lambda>el. amazon_orderLink el \<noteq> None)"
    by (rule ext) (simp add: amazon_card_id_def)
  have pw: "(\<lambda>el. truthy (walmart_group_id el)) = (\<lambda>el. truthy (walmart_returnLink el))"
    by (rule ext) (rule walmart_group_id_truthy)
  have fa: "fst (orderListFromPage d lg) =
      map amazon_order_of (filter (\<lambda>el. amazon_orderLink el \<noteq> None) (a_order_cards d))"
    unfolding orderListFromPage_def amazon_cards_eq fst_conv pa by simp
  have sa: "snd (orderListFromPage d lg) = lg"
    unfolding orderListFromPage_def amazon_cards_eq snd_conv by simp
  have ia: "map order_id (fst (orderListFromPage d lg)) = map the (filter (\<lambda>i. i \<noteq> None) aids)"
    unfolding fa using amazon_entry_ids [OF amazon] by (simp add: comp_def)
  have na: "\<forall>ord \<in> set (fst (orderListFromPage d lg)). order_id ord \<noteq> []"
  proof -
    have "order_id (amazon_order_of el) \<noteq> []" if "amazon_orderLink el \<noteq> None" for el
      using that amazon_card_id_nonempty [of el]
      by (auto simp: amazon_order_of_def amazon_card_id_def)
    then show ?thesis unfolding fa by auto
  qed
  have fw: "fst (Walmart_orderListFromPage wd lg) =
      map walmart_order_of (filter (\<lambda>el. truthy (walmart_returnLink el)) (w_order_groups wd))"
    unfolding Walmart_orderListFromPage_def walmart_groups_eq fst_conv pw by simp
  have sw: "snd (Walmart_orderListFromPage wd lg) =
      lg @ replicate (length (filter (\<lambda>i. i = None) wids))
        (LogString ''No order ID found in orderGroup-* element'')"
    unfolding Walmart_orderListFromPage_def walmart_groups_eq snd_conv walmart_group_id_truthy
    using walmart_entry_ids [OF walmart] by simp
  have iw: "map order_id (fst (Walmart_orderListFromPage wd lg)) =
      map the (filter (\<lambda>i. i \<noteq> None) wids)"
    unfolding fw using walmart_entry_ids [OF walmart] by (simp add: comp_def)
  have nw: "\<forall>ord \<in> set (fst (Walmart_orderListFromPage wd lg)). order_id ord \<noteq> []"
  proof -
    have "order_id (walmart_order_of el) \<noteq> []" if "truthy (walmart_returnLink el)" for el
      using that walmart_group_id_truthy [of el]
      by (cases "walmart_group_id el") (auto simp: walmart_order_of_def)
    then show ?thesis unfolding fw by auto
  qed
  show ?thesis using fa ia na sa fw iw nw sw by simp
qed

theorem listing_extraction_witness:
  "list_all2 amazon_entry (a_order_cards amazon_listing_doc) [Some ''111-222'', None, Some ''333'']
   \<and> list_all2 walmart_entry (w_order_groups walmart_listing_doc)
        [Some ''12345'', None, Some ''678'']
   \<and> fst (orderListFromPage amazon_listing_doc []) =
      [\<lparr>order_id = ''111-222'', order_date = ''January 5, 2024'', walmartStorePurchase = None,
        transactions = None\<rparr>,
       \<lparr>order_id = ''333'', order_date = [], walmartStorePurchase = None,
        transactions = None\<rparr>]
   \<and> snd (orderListFromPage amazon_listing_doc []) = []
   \<and> fst (Walmart_orderListFromPage walmart_listing_doc []) =
      [\<lparr>order_id = ''12345'', order_date = ''Jan 05, 2024'', walmartStorePurchase = Some True,
        transactions = None\<rparr>,
       \<lparr>order_id = ''678'', order_date = [], walmartStorePurchase = Some False,
        transactions = None\<rparr>]
   \<and> snd (Walmart_orderListFromPage walmart_listing_doc []) =
      [LogString ''No order ID found in orderGroup-* element'']"
proof -
  have a1: "amazon_href_carries ''/gp/order-details?orderID=111-222&ref=x'' ''111-222''"
    unfolding amazon_href_carries_def
    by (rule exI [of _ "''/gp/order-details?''"], rule exI [of _ "''&ref=x''"])
      (simp add: is_line_terminator_def)
  have a3: "amazon_href_carries ''/x?orderID=333#top'' ''333''"
    unfolding amazon_href_carries_def
    by (rule exI [of _ "''/x?''"], rule exI [of _ "''#top''"]) (simp add: is_line_terminator_def)
  have w1: "walmart_href_carries ''/orders/12345/returns?orderSource=STORE'' ''12345''"
    unfolding walmart_href_carries_def
    by (rule exI [of _ "''/''"], rule exI [of _ "''returns?orderSource=STORE''"])
      (simp add: is_line_terminator_def)
  have w3: "walmart_href_carries ''/orders/678/returns'' ''678''"
    unfolding walmart_href_carries_def
    by (rule exI [of _ "''/''"], rule exI [of _ "''returns''"]) (simp add: is_line_terminator_def)
  have a: "list_all2 amazon_entry (a_order_cards amazon_listing_doc)
      [Some ''111-222'', None, Some ''333'']"
    using a1 a3 by (simp add: amazon_listing_doc_def ex_docs amazon_orderLink_def)
  have w: "list_all2 walmart_entry (w_order_groups walmart_listing_doc)
      [Some ''12345'', None, Some ''678'']"
    using w1 w3 by (simp add: walmart_listing_doc_def ex_docs walmart_returnLink_def)
  have "fst (orderListFromPage amazon_listing_doc []) =
      [\<lparr>order_id = ''111-222'', order_date = ''January 5, 2024'', walmartStorePurchase = None,
        transactions = None\<rparr>,
       \<lparr>order_id = ''333'', order_date = [], walmartStorePurchase = None,
        transactions = None\<rparr>]
   \<and> snd (orderListFromPage amazon_listing_doc []) = []
   \<and> fst (Walmart_orderListFromPage walmart_listing_doc []) =
      [\<lparr>order_id = ''12345'', order_date = ''Jan 05, 2024'', walmartStorePurchase = Some True,
        transactions = None\<rparr>,
       \<lparr>order_id = ''678'', order_date = [], walmartStorePurchase = Some False,
        transactions = None\<rparr>]
   \<and> snd (Walmart_orderListFromPage walmart_listing_doc []) =
      [LogString ''No order ID found in orderGroup-* element'']"
    using listing_extraction [OF a w, of "[]"]
    by (simp add: amazon_listing_doc_def walmart_listing_doc_def ex_docs amazon_order_of_def
        walmart_order_of_def amazon_card_id_def amazon_orderLink_def walmart_group_id_def
        walmart_returnLink_def orderID_at_def orders_at_def date_at_def js_trim_def
        is_line_terminator_def is_word_char_def chars)
  then show ?thesis using a w by simp
qed

text \<open>
  Claim C7 as stated fails on Amazon's \<open>orderListFromPage\<close>: a card without an order
  link is left out and nothing is logged.
\<close>

theorem Amazon_listing_skips_silently:
  "fst (orderListFromPage amazon_nolink_doc []) = []
   \<and> snd (orderListFromPage amazon_nolink_doc []) = []"
  by (simp add: orderListFromPage_def amazon_nolink_doc_def ex_docs amazon_card_id_def
      amazon_orderLink_def)

text \<open>
  An entry outside the statement above: its link is there and the identifier pattern
  does not match it. \<open>replace\<close> then returns the \<open>href\<close> unchanged, so both providers keep
  the entry, with the whole \<open>href\<close> for its identifier, and log nothing.
\<close>

lemma unmatched_href_is_kept:
  "orderListFromPage amazon_unmatched_doc [] =
      ([\<lparr>order_id = ''/x?orderID='', order_date = ''March 3, 2024'',
         walmartStorePurchase = None, transactions = None\<rparr>], [])
   \<and> Walmart_orderListFromPage walmart_unmatched_doc [] =
      ([\<lparr>order_id = ''/orders/123'', order_date = ''Mar 03, 2024'',
         walmartStorePurchase = Some False, transactions = None\<rparr>], [])"
  by (simp add: orderListFromPage_def Walmart_orderListFromPage_def amazon_unmatched_doc_def
      walmart_unmatched_doc_def ex_docs amazon_card_id_def amazon_orderLink_def
      walmart_group_id_def walmart_returnLink_def orderID_at_def orders_at_def date_at_def
      js_trim_def is_line_terminator_def is_word_char_def chars)

section \<open>Detail extraction: claim C1\<close>

lemma walmart_transactions_items:
  "t \<in> set (walmart_transactions oid its els) \<Longrightarrow>
     items t = filter (\<lambda>item. refunded item = Some (refund t)) its"
  by (induction els) (auto simp: Let_def)

lemma walmart_items_flags:
  "item \<in> set (walmart_items oid els) \<Longrightarrow> title item \<noteq> [] \<and> refunded item \<noteq> None"
  by (induction els) (auto simp: Let_def split: if_splits)

lemma amazon_rows_items:
  "amazon_rows oid its els = Inr txs \<Longrightarrow> t \<in> set txs \<Longrightarrow> items t = its"
proof (induction els arbitrary: txs)
  case Nil
  then show ?case by simp
next
  case (Cons el els)
  have ih: "\<And>txs'. amazon_rows oid its els = Inr txs' \<Longrightarrow> t \<in> set txs' \<Longrightarrow> items t = its"
    using Cons.IH Cons.prems(2) by blast
  from Cons.prems show ?case
    by (auto simp: Let_def ih split: if_splits option.splits sum.splits)
qed

lemma amazon_items_flags:
  "item \<in> set (amazon_items els) \<Longrightarrow> title item \<noteq> [] \<and> refunded item = None"
  by (induction els) (auto simp: Let_def split: if_splits)

lemmas detail_defs = Walmart_orderDetails_def amazon_orderDetails_def amazon_date_amount_def
  Walmart_parseAmount_def moneyToNumber_def date_at_def js_trim_def js_split_def at_index_def
  is_word_char_def pf walmart_detail_doc_def amazon_refund_doc_def listed_order_def
  walmart_item_def amazon_socks_def ex_docs

text \<open>
  Claim C1, as the code has it. Walmart's \<open>fetchOrderTransactions\<close> returns the details
  read from the fetched page: every extracted item has a title and a refunded flag, and
  every emitted transaction holds exactly the extracted items whose refunded flag equals
  the transaction's refund flag, in their order. Amazon's \<open>fetchOrderTransactions\<close>
  returns the details read from the fetched page, or throws as they do: the extracted
  items carry no refunded flag, and every emitted transaction holds all of them.
\<close>

theorem detail_items_by_refund:
  "(wfetch (Walmart_orderUrl ord) = Inr (st, Inr d) \<longrightarrow>
      fst (Walmart_fetchOrderTransactions wfetch ord s) = Inr (Walmart_orderDetails d ord))
   \<and> (\<forall>t \<in> set (the (transactions (Walmart_orderDetails d ord))).
        items t = filter (\<lambda>item. refunded item = Some (refund t))
                    (walmart_items (order_id ord) (w_item_tiles d)))
   \<and> (\<forall>item \<in> set (walmart_items (order_id ord) (w_item_tiles d)).
        title item \<noteq> [] \<and> refunded item \<noteq> None)
   \<and> (afetch (AMAZON_ORDER_DETAILS_URL @ ''?orderID='' @ order_id ord) = Inr (st, Inr ad) \<longrightarrow>
        fst (fetchOrderTransactions afetch ord s) = amazon_orderDetails ad ord)
   \<and> (amazon_orderDetails ad ord = Inr ord' \<longrightarrow>
        (\<forall>t \<in> set (the (transactions ord')). items t = amazon_items (a_items ad)))
   \<and> (\<forall>item \<in> set (amazon_items (a_items ad)). title item \<noteq> [] \<and> refunded item = None)"
proof (intro conjI ballI impI)
  assume "wfetch (Walmart_orderUrl ord) = Inr (st, Inr d)"
  then show "fst (Walmart_fetchOrderTransactions wfetch ord s) =
      Inr (Walmart_orderDetails d ord)"
    by (simp add: Walmart_fetchOrderTransactions_def Let_def)
next
  fix t assume "t \<in> set (the (transactions (Walmart_orderDetails d ord)))"
  then show "items t = filter (\<lambda>item. refunded item = Some (refund t))
      (walmart_items (order_id ord) (w_item_tiles d))"
    by (simp add: Walmart_orderDetails_def Let_def walmart_transactions_items)
next
  fix item assume "item \<in> set (walmart_items (order_id ord) (w_item_tiles d))"
  then show "title item \<noteq> []" "refunded item \<noteq> None"
    using walmart_items_flags by blast+
next
  assume "afetch (AMAZON_ORDER_DETAILS_URL @ ''?orderID='' @ order_id ord) = Inr (st, Inr ad)"
  then show "fst (fetchOrderTransactions afetch ord s) = amazon_orderDetails ad ord"
    by (simp add: fetchOrderTransactions_def Let_def)
next
  fix t assume a: "amazon_orderDetails ad ord = Inr ord'" "t \<in> set (the (transactions ord'))"
  then obtain txs where r: "amazon_rows (order_id ord) (amazon_items (a_items ad))
      (a_detail_rows ad) = Inr txs"
    by (auto simp: amazon_orderDetails_def Let_def split: sum.splits)
  then show "items t = amazon_items (a_items ad)"
    using a amazon_rows_items [OF r]
    by (auto simp: amazon_orderDetails_def Let_def split: if_splits)
next
  fix item assume "item \<in> set (amazon_items (a_items ad))"
  then show "title item \<noteq> []" "refunded item = None"
    using amazon_items_flags by blast+
qed

theorem detail_items_by_refund_witness:
  "map items (the (transactions (projr (fst (Walmart_fetchOrderTransactions
      (serve walmart_detail_doc) (listed_order ''77'') io0))))) =
      [[walmart_item ''Milk'' 3.5 False, walmart_item ''Bread'' 2.25 False],
       [walmart_item ''Socks'' 9.99 True]]
   \<and> map refund (the (transactions (projr (fst (Walmart_fetchOrderTransactions
      (serve walmart_detail_doc) (listed_order ''77'') io0))))) = [False, True]
   \<and> fst (fetchOrderTransactions (serve amazon_refund_doc) (listed_order ''77'') io0) =
      Inr ((listed_order ''77'')\<lparr>transactions :=
        Some [\<lparr>tx_id = ''77'', tx_date = ''January 9, 2024'', amount = Num 9.99, refund = True,
                items = [amazon_socks]\<rparr>]\<rparr>)"
proof -
  note t = detail_items_by_refund [where wfetch = "serve walmart_detail_doc"
      and ord = "listed_order ''77''" and st = 200 and d = walmart_detail_doc and s = io0
      and afetch = "serve amazon_refund_doc" and ad = amazon_refund_doc
      and ord' = "(listed_order ''77'')\<lparr>transactions :=
        Some [\<lparr>tx_id = ''77'', tx_date = ''January 9, 2024'', amount = Num 9.99, refund = True,
                items = [amazon_socks]\<rparr>]\<rparr>"]
  have w: "fst (Walmart_fetchOrderTransactions (serve walmart_detail_doc) (listed_order ''77'')
      io0) = Inr (Walmart_orderDetails walmart_detail_doc (listed_order ''77''))"
    using t by (simp add: serve_def)
  have a: "fst (fetchOrderTransactions (serve amazon_refund_doc) (listed_order ''77'') io0) =
      amazon_orderDetails amazon_refund_doc (listed_order ''77'')"
    using t by (simp add: serve_def)
  show ?thesis
    unfolding w a using t by (simp add: detail_defs)
qed

text \<open>
  Claim C1 as stated fails on Amazon's \<open>fetchOrderTransactions\<close>: the transaction of a
  completed refund holds an item that has no refunded flag.
\<close>

theorem Amazon_refund_holds_every_item:
  "amazon_orderDetails amazon_refund_doc (listed_order ''A1'') =
      Inr ((listed_order ''A1'')\<lparr>transactions :=
        Some [\<lparr>tx_id = ''A1'', tx_date = ''January 9, 2024'', amount = Num 9.99, refund = True,
                items = [amazon_socks]\<rparr>]\<rparr>)
   \<and> refunded amazon_socks \<noteq> Some True"
  by (simp add: detail_defs)

section \<open>fetchOrders: claims C2 and C4\<close>

lemma Throttle_all_permutation:
  assumes "mset schedule = mset [0..<length xs]"
  shows "\<exists>ts. Throttle_all schedule task xs st = foldl (\<lambda>s x. task x s) st ts \<and> mset ts = mset xs"
proof -
  have "set schedule = set [0..<length xs]"
    using assms by (metis set_mset_mset)
  then have lt: "\<forall>i \<in> set schedule. i < length xs" by simp
  have "foldl (\<lambda>s i. if i < length xs then task (xs ! i) s else s) st' sch =
      foldl (\<lambda>s x. task x s) st' (map ((!) xs) sch)"
    if "\<forall>i \<in> set sch. i < length xs" for sch st'
    using that by (induction sch arbitrary: st') simp_all
  then have "Throttle_all schedule task xs st =
      foldl (\<lambda>s x. task x s) st (map ((!) xs) schedule)"
    using lt by (simp add: Throttle_all_def)
  moreover have "mset (map ((!) xs) schedule) = mset xs"
  proof -
    have "mset (map ((!) xs) schedule) = image_mset ((!) xs) (mset schedule)" by simp
    also have "\<dots> = image_mset ((!) xs) (mset [0..<length xs])" by (simp only: assms)
    also have "\<dots> = mset (map ((!) xs) [0..<length xs])" by simp
    also have "\<dots> = mset xs" by (simp only: map_nth)
    finally show ?thesis .
  qed
  ultimately show ?thesis by blast
qed
lemma filter_length_mset:
  "mset ts = mset xs \<Longrightarrow> length (filter P ts) = length (filter P xs)"
  by (metis mset_filter size_mset)
lemma processOrder_step:
  assumes H2: "\<And>ord s. io_progress (snd (fetchTx ord s)) = io_progress s"
    and H3: "\<And>ord s. filter P (io_log (snd (fetchTx ord s))) =
        filter P (io_log s)"
    and HP: "\<And>e. P (LogError e)"
  shows "fst (processOrder fetchTx ph n ord st) =
      (case fst (fetchTx ord (snd st)) of Inr od \<Rightarrow> fst st @ [od] | Inl e \<Rightarrow> fst st)"
    and "filter P (io_log (snd (processOrder fetchTx ph n ord st))) =
      filter P (io_log (snd st)) @
      (case fst (fetchTx ord (snd st)) of Inr od \<Rightarrow> [] | Inl e \<Rightarrow> [LogError e])"
    and "io_progress (snd (processOrder fetchTx ph n ord st)) =
      io_progress (snd st) @
      [\<lparr>phase = ph, total = int n,
        complete = int (length (fst (processOrder fetchTx ph n ord st)))\<rparr>]"
proof -
  obtain r s1 where f: "fetchTx ord (snd st) = (r, s1)" by (cases "fetchTx ord (snd st)")
  have p: "io_progress s1 = io_progress (snd st)" using H2 [of ord "snd st"] f by simp
  have l: "filter P (io_log s1) = filter P (io_log (snd st))"
    using H3 [of ord "snd st"] f by simp
  show "fst (processOrder fetchTx ph n ord st) =
      (case fst (fetchTx ord (snd st)) of Inr od \<Rightarrow> fst st @ [od] | Inl e \<Rightarrow> fst st)"
    by (cases r) (simp_all add: processOrder_def f)
  show "filter P (io_log (snd (processOrder fetchTx ph n ord st))) =
      filter P (io_log (snd st)) @
      (case fst (fetchTx ord (snd st)) of Inr od \<Rightarrow> [] | Inl e \<Rightarrow> [LogError e])"
    by (cases r) (simp_all add: processOrder_def f onProgress_def debugLog_def l HP)
  show "io_progress (snd (processOrder fetchTx ph n ord st)) =
      io_progress (snd st) @
      [\<lparr>phase = ph, total = int n,
        complete = int (length (fst (processOrder fetchTx ph n ord st)))\<rparr>]"
    by (cases r) (simp_all add: processOrder_def f onProgress_def debugLog_def p)
qed
lemma run_tasks_snoc:
  "foldl (\<lambda>s x. processOrder fetchTx ph n x s) st (ts @ [x]) =
     processOrder fetchTx ph n x (foldl (\<lambda>s x. processOrder fetchTx ph n x s) st ts)"
  by simp

lemma run_tasks_fst:
  fixes fetchTx :: "Order \<Rightarrow> io \<Rightarrow> (exn + Order) \<times> io"
  assumes H1: "\<And>ord s. fst (fetchTx ord s) = res ord"
    and H2: "\<And>ord s. io_progress (snd (fetchTx ord s)) = io_progress s"
    and H3: "\<And>ord s. filter P (io_log (snd (fetchTx ord s))) =
        filter P (io_log s)"
    and HP: "\<And>e. P (LogError e)"
  shows "fst (foldl (\<lambda>s x. processOrder fetchTx ph n x s) ([], s0) ts) =
      map (\<lambda>ord. projr (res ord)) (filter (\<lambda>ord. \<not> isl (res ord)) ts)"
proof (induction ts rule: rev_induct)
  case Nil
  then show ?case by simp
next
  case (snoc x ts)
  show ?case
  proof (cases "res x")
    case (Inl e)
    then show ?thesis
      unfolding run_tasks_snoc processOrder_step(1) [of fetchTx P, OF H2 H3 HP] H1
      using snoc by simp
  next
    case (Inr od)
    then show ?thesis
      unfolding run_tasks_snoc processOrder_step(1) [of fetchTx P, OF H2 H3 HP] H1
      using snoc by simp
  qed
qed
lemma run_tasks_log:
  fixes fetchTx :: "Order \<Rightarrow> io \<Rightarrow> (exn + Order) \<times> io"
  assumes H1: "\<And>ord s. fst (fetchTx ord s) = res ord"
    and H2: "\<And>ord s. io_progress (snd (fetchTx ord s)) = io_progress s"
    and H3: "\<And>ord s. filter P (io_log (snd (fetchTx ord s))) =
        filter P (io_log s)"
    and HP: "\<And>e. P (LogError e)"
  shows "filter P
      (io_log (snd (foldl (\<lambda>s x. processOrder fetchTx ph n x s) ([], s0) ts))) =
      filter P (io_log s0) @
      map (\<lambda>ord. LogError (projl (res ord))) (filter (\<lambda>ord. isl (res ord)) ts)"
proof (induction ts rule: rev_induct)
  case Nil
  then show ?case by simp
next
  case (snoc x ts)
  show ?case
  proof (cases "res x")
    case (Inl e)
    then show ?thesis
      unfolding run_tasks_snoc processOrder_step(2) [of fetchTx P, OF H2 H3 HP] H1
      using snoc by simp
  next
    case (Inr od)
    then show ?thesis
      unfolding run_tasks_snoc processOrder_step(2) [of fetchTx P, OF H2 H3 HP] H1
      using snoc by simp
  qed
qed

lemma run_tasks_progress:
  fixes fetchTx :: "Order \<Rightarrow> io \<Rightarrow> (exn + Order) \<times> io"
  assumes H2: "\<And>ord s. io_progress (snd (fetchTx ord s)) = io_progress s"
    and H3: "\<And>ord s. filter P (io_log (snd (fetchTx ord s))) =
        filter P (io_log s)"
    and HP: "\<And>e. P (LogError e)"
  shows "length (io_progress (snd (foldl (\<lambda>s x. processOrder fetchTx ph n x s) ([], s0) ts))) =
      length (io_progress s0) + length ts"
    and "ts \<noteq> [] \<Longrightarrow>
      last (io_progress (snd (foldl (\<lambda>s x. processOrder fetchTx ph n x s) ([], s0) ts))) =
      \<lparr>phase = ph, total = int n,
        complete = int (length (fst (foldl (\<lambda>s x. processOrder fetchTx ph n x s) ([], s0) ts)))\<rparr>"
proof -
  show "length (io_progress (snd (foldl (\<lambda>s x. processOrder fetchTx ph n x s) ([], s0) ts))) =
      length (io_progress s0) + length ts"
  proof (induction ts rule: rev_induct)
    case Nil
    then show ?case by simp
  next
    case (snoc x ts)
    show ?case
      unfolding run_tasks_snoc processOrder_step(3) [of fetchTx P, OF H2 H3 HP]
      using snoc by simp
  qed
  show "last (io_progress (snd (foldl (\<lambda>s x. processOrder fetchTx ph n x s) ([], s0) ts))) =
      \<lparr>phase = ph, total = int n,
        complete = int (length (fst (foldl (\<lambda>s x. processOrder fetchTx ph n x s) ([], s0) ts)))\<rparr>"
    if ne: "ts \<noteq> []"
  proof -
    obtain ts' x where t: "ts = ts' @ [x]" using ne by (cases ts rule: rev_cases) auto
    show ?thesis
      unfolding t run_tasks_snoc processOrder_step(3) [of fetchTx P, OF H2 H3 HP] by simp
  qed
qed

lemma one_failure_generic:
  fixes fetchTx :: "Order \<Rightarrow> io \<Rightarrow> (exn + Order) \<times> io"
  assumes H1: "\<And>ord s. fst (fetchTx ord s) = res ord"
    and H2: "\<And>ord s. io_progress (snd (fetchTx ord s)) = io_progress s"
    and H3: "\<And>ord s. filter P (io_log (snd (fetchTx ord s))) =
        filter P (io_log s)"
    and HP: "\<And>e. P (LogError e)"
    and sched: "mset schedule = mset [0..<length orders]"
    and one: "length (filter (\<lambda>ord. isl (res ord)) orders) = 1"
    and R: "R = Throttle_all schedule (processOrder fetchTx ph (length orders)) orders ([], s1)"
  shows "length (fst R) = length orders - 1"
    and "mset (fst R) =
      mset (map (\<lambda>ord. projr (res ord)) (filter (\<lambda>ord. \<not> isl (res ord)) orders))"
    and "\<forall>ord \<in> set orders. \<forall>e. res ord = Inl e \<longrightarrow>
      filter P (io_log (snd R)) = filter P (io_log s1) @ [LogError e]"
    and "length (io_progress (snd R)) = length (io_progress s1) + length orders"
    and "last (io_progress (snd R)) =
      \<lparr>phase = ph, total = int (length orders), complete = int (length orders) - 1\<rparr>"
proof -
  from Throttle_all_permutation [OF sched, of "processOrder fetchTx ph (length orders)" "([], s1)"]
  obtain ts where ts': "Throttle_all schedule (processOrder fetchTx ph (length orders)) orders
      ([], s1) = foldl (\<lambda>s x. processOrder fetchTx ph (length orders) x s) ([], s1) ts"
    and perm: "mset ts = mset orders"
    by (elim exE conjE)
  have ts: "R = foldl (\<lambda>s x. processOrder fetchTx ph (length orders) x s) ([], s1) ts"
    unfolding R by (rule ts')
  have len: "length ts = length orders"
    using perm by (rule mset_eq_length)
  have bad: "length (filter (\<lambda>ord. isl (res ord)) ts) = 1"
    using filter_length_mset [OF perm] one by simp
  have good: "length (filter (\<lambda>ord. \<not> isl (res ord)) ts) = length orders - 1"
    using sum_length_filter_compl [of "\<lambda>ord. isl (res ord)" ts] bad len by simp
  have ne: "ts \<noteq> []" using bad by auto
  show n1: "length (fst R) = length orders - 1"
    unfolding ts run_tasks_fst [of fetchTx res P, OF H1 H2 H3 HP] using good by simp
  have "mset (filter (\<lambda>ord. \<not> isl (res ord)) ts) = mset (filter (\<lambda>ord. \<not> isl (res ord)) orders)"
    using perm by simp
  then have "mset (map (\<lambda>ord. projr (res ord)) (filter (\<lambda>ord. \<not> isl (res ord)) ts)) =
      mset (map (\<lambda>ord. projr (res ord)) (filter (\<lambda>ord. \<not> isl (res ord)) orders))"
    by (metis mset_map)
  then show "mset (fst R) =
      mset (map (\<lambda>ord. projr (res ord)) (filter (\<lambda>ord. \<not> isl (res ord)) orders))"
    unfolding ts run_tasks_fst [of fetchTx res P, OF H1 H2 H3 HP] .
  obtain b where b: "filter (\<lambda>ord. isl (res ord)) ts = [b]"
    using bad by (cases "filter (\<lambda>ord. isl (res ord)) ts") auto
  have only: "ord = b" if "ord \<in> set orders" "isl (res ord)" for ord
  proof -
    have "ord \<in> set ts" using that(1) mset_eq_setD [OF perm] by simp
    then have "ord \<in> set (filter (\<lambda>ord. isl (res ord)) ts)" using that(2) by simp
    then show ?thesis unfolding b by simp
  qed
  show "\<forall>ord \<in> set orders. \<forall>e. res ord = Inl e \<longrightarrow>
      filter P (io_log (snd R)) = filter P (io_log s1) @ [LogError e]"
  proof (intro ballI allI impI)
    fix ord e assume a: "ord \<in> set orders" "res ord = Inl e"
    then have "ord = b" using only by simp
    then have "projl (res b) = e" using a(2) by simp
    then show "filter P (io_log (snd R)) =
        filter P (io_log s1) @ [LogError e]"
      unfolding ts run_tasks_log [of fetchTx res P, OF H1 H2 H3 HP] b by simp
  qed
  show "length (io_progress (snd R)) = length (io_progress s1) + length orders"
    unfolding ts run_tasks_progress(1) [of fetchTx P, OF H2 H3 HP] len ..
  have "last (io_progress (snd R)) =
      \<lparr>phase = ph, total = int (length orders), complete = int (length (fst R))\<rparr>"
    unfolding ts by (rule run_tasks_progress(2) [of fetchTx P, OF H2 H3 HP ne])
  moreover have "0 < length orders" using ne len by (cases ts) auto
  ultimately show "last (io_progress (snd R)) =
      \<lparr>phase = ph, total = int (length orders), complete = int (length orders) - 1\<rparr>"
    using n1 by (simp add: of_nat_diff)
qed

lemma fetchOrderTransactions_effects:
  "fst (fetchOrderTransactions fetch ord s) = fst (fetchOrderTransactions fetch ord s')"
  "io_progress (snd (fetchOrderTransactions fetch ord s)) = io_progress s"
  "filter is_LogError (io_log (snd (fetchOrderTransactions fetch ord s))) =
     filter is_LogError (io_log s)"
  by (auto simp: fetchOrderTransactions_def Let_def request_def debugLog_def
      split: sum.splits prod.splits)

lemma Walmart_fetchOrderTransactions_effects:
  "fst (Walmart_fetchOrderTransactions fetch ord s) =
     fst (Walmart_fetchOrderTransactions fetch ord s')"
  "io_progress (snd (Walmart_fetchOrderTransactions fetch ord s)) = io_progress s"
  "io_log (snd (Walmart_fetchOrderTransactions fetch ord s)) = io_log s"
  by (auto simp: Walmart_fetchOrderTransactions_def Let_def request_def
      split: sum.splits prod.splits)

lemma amazon_one_failure:
  assumes scan: "amazon_pageScan fetch year s0 = (Inr orders, s1)"
    and sched: "mset schedule = mset [0..<length orders]"
    and one: "length (filter (\<lambda>ord. isl (fst (fetchOrderTransactions fetch ord s1))) orders) = 1"
  defines "R \<equiv> fetchOrders fetch schedule year s0"
  shows "\<not> isl (fst R) \<and> length (projr (fst R)) = length orders - 1
    \<and> mset (projr (fst R)) =
        mset (map (\<lambda>ord. projr (fst (fetchOrderTransactions fetch ord s1)))
          (filter (\<lambda>ord. \<not> isl (fst (fetchOrderTransactions fetch ord s1))) orders))
    \<and> (\<forall>ord \<in> set orders. \<forall>e. fst (fetchOrderTransactions fetch ord s1) = Inl e \<longrightarrow>
          filter is_LogError (io_log (snd R)) = filter is_LogError (io_log s1) @ [LogError e])
    \<and> length (io_progress (snd R)) = length (io_progress s1) + length orders
    \<and> last (io_progress (snd R)) =
        \<lparr>phase = AmazonOrderDownload, total = int (length orders),
          complete = int (length orders) - 1\<rparr>"
proof -
  define T where "T = Throttle_all schedule
    (processOrder (fetchOrderTransactions fetch) AmazonOrderDownload (length orders)) orders
    ([], s1)"
  have R: "R = (Inr (fst T), snd T)"
    by (simp add: R_def fetchOrders_def scan T_def split: prod.splits)
  note g = one_failure_generic [of "fetchOrderTransactions fetch"
      "\<lambda>ord. fst (fetchOrderTransactions fetch ord s1)" is_LogError schedule orders T
      AmazonOrderDownload s1,
      OF fetchOrderTransactions_effects(1) fetchOrderTransactions_effects(2)
        fetchOrderTransactions_effects(3) _ sched one T_def]
  show ?thesis
    unfolding R using g by simp
qed

lemma walmart_one_failure:
  assumes scan: "walmart_pageScan fetch year maxPages s0 = (Inr orders, s1)"
    and sched: "mset schedule = mset [0..<length orders]"
    and one: "length (filter (\<lambda>ord. isl (fst (Walmart_fetchOrderTransactions fetch ord s1)))
        orders) = 1"
  defines "R \<equiv> Walmart_fetchOrders fetch schedule year maxPages s0"
  shows "\<not> isl (fst R) \<and> length (projr (fst R)) = length orders - 1
    \<and> mset (projr (fst R)) =
        mset (map (\<lambda>ord. projr (fst (Walmart_fetchOrderTransactions fetch ord s1)))
          (filter (\<lambda>ord. \<not> isl (fst (Walmart_fetchOrderTransactions fetch ord s1))) orders))
    \<and> (\<forall>ord \<in> set orders. \<forall>e. fst (Walmart_fetchOrderTransactions fetch ord s1) = Inl e \<longrightarrow>
          io_log (snd R) = io_log s1 @ [LogError e])
    \<and> length (io_progress (snd R)) = length (io_progress s1) + length orders
    \<and> last (io_progress (snd R)) =
        \<lparr>phase = WalmartOrderDownload, total = int (length orders),
          complete = int (length orders) - 1\<rparr>"
proof -
  define T where "T = Throttle_all schedule
    (processOrder (Walmart_fetchOrderTransactions fetch) WalmartOrderDownload (length orders))
    orders ([], s1)"
  have R: "R = (Inr (fst T), snd T)"
    by (simp add: R_def Walmart_fetchOrders_def scan T_def split: prod.splits)
  have H3: "filter (\<lambda>x. True) (io_log (snd (Walmart_fetchOrderTransactions fetch ord s))) =
      filter (\<lambda>x. True) (io_log s)" for ord s
    by (simp add: Walmart_fetchOrderTransactions_effects(3))
  note g = one_failure_generic [of "Walmart_fetchOrderTransactions fetch"
      "\<lambda>ord. fst (Walmart_fetchOrderTransactions fetch ord s1)" "\<lambda>x. True" schedule orders T
      WalmartOrderDownload s1,
      OF Walmart_fetchOrderTransactions_effects(1) Walmart_fetchOrderTransactions_effects(2)
        H3 _ sched one T_def]
  show ?thesis
    unfolding R using g by simp
qed

lemma orderListFromPage_orders:
  "fst (orderListFromPage d lg) = fst (orderListFromPage d lg')"
  "snd (orderListFromPage d lg) = lg"
  by (simp_all add: orderListFromPage_def amazon_cards_eq)

lemma Walmart_orderListFromPage_orders:
  "fst (Walmart_orderListFromPage d lg) = fst (Walmart_orderListFromPage d lg')"
  by (simp add: Walmart_orderListFromPage_def walmart_groups_eq)

lemma processOrders_effects:
  "fst (processOrders fetch year i s) = fst (processOrders fetch year i s')"
  "io_requests (snd (processOrders fetch year i s)) = io_requests s @ [processOrders_url year i]"
  by (auto simp: processOrders_def Let_def request_def debugLog_def orderListFromPage_def
      amazon_cards_eq split: sum.splits prod.splits)

lemma amazon_pages_result:
  "amazon_pages fetch year endPage pages orders s = (Inr orders', s') \<Longrightarrow>
     io_requests s' = io_requests s @ map (processOrders_url year) pages
     \<and> orders' = orders @ concat (map (\<lambda>i. projr (fst (processOrders fetch year i s0))) pages)"
proof (induction pages arbitrary: orders s)
  case Nil
  then show ?case by simp
next
  case (Cons i pages)
  obtain r s1 where p: "processOrders fetch year i s = (r, s1)"
    by (cases "processOrders fetch year i s")
  then obtain ordersPage where r: "r = Inr ordersPage"
    using Cons.prems by (cases r) simp_all
  have rq: "io_requests s1 = io_requests s @ [processOrders_url year i]"
    using processOrders_effects(2) [of fetch year i s] p by simp
  have op: "projr (fst (processOrders fetch year i s0)) = ordersPage"
    using processOrders_effects(1) [of fetch year i s0 s] p r by simp
  have "amazon_pages fetch year endPage pages (orders @ ordersPage)
      (onProgress \<lparr>phase = AmazonPageScan, total = endPage, complete = i\<rparr> s1) = (Inr orders', s')"
    using Cons.prems p r by simp
  from Cons.IH [OF this] show ?case
    by (simp add: onProgress_def rq op)
qed

lemma Max_insert_absorb:
  fixes a b :: int
  assumes "finite S" and "b \<le> a"
  shows "Max (insert a (insert b S)) = Max (insert a S)"
proof (cases "S = {}")
  case True
  then show ?thesis using assms(2) by (simp add: max_def)
next
  case False
  then show ?thesis using assms by (simp add: max.assoc [symmetric] max.absorb1)
qed

lemma amazon_endPage_Max:
  "amazon_endPage els e = Max (insert e (set (page_numbers els)))"
proof (induction els arbitrary: e)
  case Nil
  then show ?case by simp
next
  case (Cons el els)
  show ?case
  proof (cases "parseInt (js_trim el)")
    case (Num r)
    show ?thesis
    proof (cases "r > of_int e")
      case True
      then have le: "e \<le> \<lfloor>r\<rfloor>" by (simp add: le_floor_iff)
      have "amazon_endPage (el # els) e = Max (insert \<lfloor>r\<rfloor> (set (page_numbers els)))"
        using Num True Cons.IH [of "\<lfloor>r\<rfloor>"] by simp
      also have "\<dots> = Max (insert \<lfloor>r\<rfloor> (insert e (set (page_numbers els))))"
        using le by (simp only: Max_insert_absorb [OF finite_set])
      also have "\<dots> = Max (insert e (insert \<lfloor>r\<rfloor> (set (page_numbers els))))"
        by (simp only: insert_commute)
      finally show ?thesis using Num by simp
    next
      case False
      then have le: "\<lfloor>r\<rfloor> \<le> e" by (simp add: floor_le_iff not_less)
      have "amazon_endPage (el # els) e = Max (insert e (set (page_numbers els)))"
        using Num False Cons.IH [of e] by simp
      also have "\<dots> = Max (insert e (insert \<lfloor>r\<rfloor> (set (page_numbers els))))"
        using le by (simp only: Max_insert_absorb [OF finite_set])
      finally show ?thesis using Num by simp
    qed
  qed (use Cons.IH [of e] in simp_all)
qed
lemma amazon_pageScan_result:
  assumes f: "fetch (AMAZON_ORDER_PAGES_URL @ timeFilter ''&'' year) = Inr (st, Inr d)"
    and scan: "amazon_pageScan fetch year s0 = (Inr orders, s1)"
  shows "io_requests s1 =
      io_requests s0 @ (AMAZON_ORDER_PAGES_URL @ timeFilter ''&'' year) #
        map (processOrders_url year) [2..Max (insert 1 (set (page_numbers (a_pagination d))))]"
    and "orders =
      fst (orderListFromPage d []) @
      concat (map (\<lambda>i. projr (fst (processOrders fetch year i s0)))
        [2..Max (insert 1 (set (page_numbers (a_pagination d))))])"
proof -
  define endPage where "endPage = amazon_endPage (a_pagination d) 1"
  have e: "endPage = Max (insert 1 (set (page_numbers (a_pagination d))))"
    unfolding endPage_def by (rule amazon_endPage_Max)
  obtain s5 where s5: "io_requests s5 =
      io_requests s0 @ [AMAZON_ORDER_PAGES_URL @ timeFilter ''&'' year]"
    and p: "amazon_pages fetch year endPage [2..endPage] (fst (orderListFromPage d [])) s5 =
      (Inr orders, s1)"
  proof -
    show ?thesis
      using scan
      by (intro that [of "onProgress \<lparr>phase = AmazonPageScan, total = endPage, complete = 1\<rparr>
          (debugLog (LogString (''Found '' @
              Number_toString (length (fst (orderListFromPage d []))) @ '' orders''))
            (onProgress \<lparr>phase = AmazonPageScan, total = endPage, complete = 0\<rparr>
              (debugLog (LogString (''Got orders response '' @ Number_toString st))
                (request (AMAZON_ORDER_PAGES_URL @ timeFilter ''&'' year)
                  (debugLog (LogString (''Fetching orders from '' @
                     AMAZON_ORDER_PAGES_URL @ timeFilter ''&'' year)) s0)))))"])
        (simp_all add: amazon_pageScan_def f Let_def orderListFromPage_def amazon_cards_eq
          endPage_def request_def debugLog_def onProgress_def)
  qed
  from amazon_pages_result [OF p, of s0]
  show "io_requests s1 =
      io_requests s0 @ (AMAZON_ORDER_PAGES_URL @ timeFilter ''&'' year) #
        map (processOrders_url year) [2..Max (insert 1 (set (page_numbers (a_pagination d))))]"
    and "orders =
      fst (orderListFromPage d []) @
      concat (map (\<lambda>i. projr (fst (processOrders fetch year i s0)))
        [2..Max (insert 1 (set (page_numbers (a_pagination d))))])"
    unfolding e [symmetric] by (simp_all add: s5)
qed

lemma Walmart_endPage_le: "Walmart_endPage maxPages \<le> 1"
  by (simp add: Walmart_endPage_def split: option.splits)

lemma walmart_pageScan_result:
  assumes scan: "walmart_pageScan fetch year maxPages s0 = (Inr orders, s1)"
  shows "io_requests s1 = io_requests s0 @ [WALMART_ORDER_PAGES_URL @ timeFilter ''?'' year]"
    and "\<forall>st d. fetch (WALMART_ORDER_PAGES_URL @ timeFilter ''?'' year) = Inr (st, Inr d) \<longrightarrow>
      orders = fst (Walmart_orderListFromPage d [])"
proof -
  have nil: "[2..Walmart_endPage maxPages] = []"
    using Walmart_endPage_le [of maxPages] by simp
  obtain st d where f: "fetch (WALMART_ORDER_PAGES_URL @ timeFilter ''?'' year) = Inr (st, Inr d)"
    using scan
    by (auto simp: walmart_pageScan_def Let_def split: sum.splits prod.splits)
  have r: "orders = fst (Walmart_orderListFromPage d []) \<and>
      io_requests s1 = io_requests s0 @ [WALMART_ORDER_PAGES_URL @ timeFilter ''?'' year]"
    using scan
    by (auto simp: walmart_pageScan_def f Let_def nil request_def onProgress_def
        Walmart_orderListFromPage_def walmart_groups_eq)
  show "io_requests s1 = io_requests s0 @ [WALMART_ORDER_PAGES_URL @ timeFilter ''?'' year]"
    using r by simp
  show "\<forall>st d. fetch (WALMART_ORDER_PAGES_URL @ timeFilter ''?'' year) = Inr (st, Inr d) \<longrightarrow>
      orders = fst (Walmart_orderListFromPage d [])"
    using r f by simp
qed

lemma all_succeed_generic:
  fixes fetchTx :: "Order \<Rightarrow> io \<Rightarrow> (exn + Order) \<times> io"
  assumes H1: "\<And>ord s. fst (fetchTx ord s) = res ord"
    and H2: "\<And>ord s. io_progress (snd (fetchTx ord s)) = io_progress s"
    and H3: "\<And>ord s. filter P (io_log (snd (fetchTx ord s))) = filter P (io_log s)"
    and HP: "\<And>e. P (LogError e)"
    and sched: "mset schedule = mset [0..<length orders]"
    and ok: "\<forall>ord \<in> set orders. \<not> isl (res ord)"
    and ne: "orders \<noteq> []"
    and R: "R = Throttle_all schedule (processOrder fetchTx ph (length orders)) orders ([], s1)"
  shows "length (fst R) = length orders"
    and "mset (fst R) = mset (map (\<lambda>ord. projr (res ord)) orders)"
    and "last (io_progress (snd R)) =
      \<lparr>phase = ph, total = int (length orders), complete = int (length orders)\<rparr>"
proof -
  from Throttle_all_permutation [OF sched, of "processOrder fetchTx ph (length orders)" "([], s1)"]
  obtain ts where ts': "Throttle_all schedule (processOrder fetchTx ph (length orders)) orders
      ([], s1) = foldl (\<lambda>s x. processOrder fetchTx ph (length orders) x s) ([], s1) ts"
    and perm: "mset ts = mset orders"
    by (elim exE conjE)
  have ts: "R = foldl (\<lambda>s x. processOrder fetchTx ph (length orders) x s) ([], s1) ts"
    unfolding R by (rule ts')
  have len: "length ts = length orders"
    using perm by (rule mset_eq_length)
  have "\<forall>ord \<in> set ts. \<not> isl (res ord)"
    using ok mset_eq_setD [OF perm] by simp
  then have all: "filter (\<lambda>ord. \<not> isl (res ord)) ts = ts"
    by simp
  have tne: "ts \<noteq> []" using ne len by (cases ts) auto
  show n: "length (fst R) = length orders"
    unfolding ts run_tasks_fst [of fetchTx res P, OF H1 H2 H3 HP] all using len by simp
  have "mset (map (\<lambda>ord. projr (res ord)) ts) = mset (map (\<lambda>ord. projr (res ord)) orders)"
    using perm by (metis mset_map)
  then show "mset (fst R) = mset (map (\<lambda>ord. projr (res ord)) orders)"
    unfolding ts run_tasks_fst [of fetchTx res P, OF H1 H2 H3 HP] all .
  have "last (io_progress (snd R)) =
      \<lparr>phase = ph, total = int (length orders), complete = int (length (fst R))\<rparr>"
    unfolding ts by (rule run_tasks_progress(2) [of fetchTx P, OF H2 H3 HP tne])
  then show "last (io_progress (snd R)) =
      \<lparr>phase = ph, total = int (length orders), complete = int (length orders)\<rparr>"
    using n by simp
qed

lemma amazon_all_succeed:
  assumes scan: "amazon_pageScan fetch year s0 = (Inr orders, s1)"
    and sched: "mset schedule = mset [0..<length orders]"
    and ok: "\<forall>ord \<in> set orders. \<not> isl (fst (fetchOrderTransactions fetch ord s1))"
    and ne: "orders \<noteq> []"
  shows "\<not> isl (fst (fetchOrders fetch schedule year s0))
    \<and> length (projr (fst (fetchOrders fetch schedule year s0))) = length orders
    \<and> last (io_progress (snd (fetchOrders fetch schedule year s0))) =
        \<lparr>phase = AmazonOrderDownload, total = int (length orders),
          complete = int (length orders)\<rparr>"
proof -
  define T where "T = Throttle_all schedule
    (processOrder (fetchOrderTransactions fetch) AmazonOrderDownload (length orders)) orders
    ([], s1)"
  have R: "fetchOrders fetch schedule year s0 = (Inr (fst T), snd T)"
    by (simp add: fetchOrders_def scan T_def split: prod.splits)
  note g = all_succeed_generic [of "fetchOrderTransactions fetch"
      "\<lambda>ord. fst (fetchOrderTransactions fetch ord s1)" is_LogError schedule orders T
      AmazonOrderDownload s1,
      OF fetchOrderTransactions_effects(1) fetchOrderTransactions_effects(2)
        fetchOrderTransactions_effects(3) _ sched ok ne T_def]
  show ?thesis
    unfolding R using g by simp
qed

lemma walmart_all_succeed:
  assumes scan: "walmart_pageScan fetch year maxPages s0 = (Inr orders, s1)"
    and sched: "mset schedule = mset [0..<length orders]"
    and ok: "\<forall>ord \<in> set orders. \<not> isl (fst (Walmart_fetchOrderTransactions fetch ord s1))"
    and ne: "orders \<noteq> []"
  shows "\<not> isl (fst (Walmart_fetchOrders fetch schedule year maxPages s0))
    \<and> length (projr (fst (Walmart_fetchOrders fetch schedule year maxPages s0))) = length orders
    \<and> last (io_progress (snd (Walmart_fetchOrders fetch schedule year maxPages s0))) =
        \<lparr>phase = WalmartOrderDownload, total = int (length orders),
          complete = int (length orders)\<rparr>"
proof -
  define T where "T = Throttle_all schedule
    (processOrder (Walmart_fetchOrderTransactions fetch) WalmartOrderDownload (length orders))
    orders ([], s1)"
  have R: "Walmart_fetchOrders fetch schedule year maxPages s0 = (Inr (fst T), snd T)"
    by (simp add: Walmart_fetchOrders_def scan T_def split: prod.splits)
  have H3: "filter (\<lambda>x. True) (io_log (snd (Walmart_fetchOrderTransactions fetch ord s))) =
      filter (\<lambda>x. True) (io_log s)" for ord s
    by (simp add: Walmart_fetchOrderTransactions_effects(3))
  note g = all_succeed_generic [of "Walmart_fetchOrderTransactions fetch"
      "\<lambda>ord. fst (Walmart_fetchOrderTransactions fetch ord s1)" "\<lambda>x. True" schedule orders T
      WalmartOrderDownload s1,
      OF Walmart_fetchOrderTransactions_effects(1) Walmart_fetchOrderTransactions_effects(2)
        H3 _ sched ok ne T_def]
  show ?thesis
    unfolding R using g by simp
qed

lemma Number_toString_values:
  "Number_toString 2 = ''2''" "Number_toString 10 = ''10''" "Number_toString 13 = ''13''"
  "Number_toString 200 = ''200''"
  "Number_toString (Suc (Suc (Suc (Suc (Suc (Suc (Suc (Suc (Suc (Suc 0)))))))))) = ''10''"
  by code_simp+

lemmas url_defs = AMAZON_ORDER_PAGES_URL_def AMAZON_ORDER_DETAILS_URL_def
  WALMART_ORDER_PAGES_URL_def WALMART_ORDER_DETAILS_URL_def processOrders_url_def
  Walmart_processOrders_url_def Walmart_orderUrl_def timeFilter_def Int_toString_def
  Number_toString_values

lemma amazon_shop_pageScan:
  "amazon_pageScan (amazon_shop down) None io0 =
     (Inr (map listed_order (page1_ids @ page2_ids)),
      \<lparr>io_log =
         [LogString ''Fetching orders from https://www.amazon.com/gp/css/order-history?disableCsd=no-js'',
          LogString ''Got orders response 200'', LogString ''Found 10 orders'',
          LogString ''Fetching orders from https://www.amazon.com/gp/css/order-history?disableCsd=no-js&startIndex=10'',
          LogString ''Got orders response 200 for page 2''],
       io_progress =
         [\<lparr>phase = AmazonPageScan, total = 2, complete = 0\<rparr>,
          \<lparr>phase = AmazonPageScan, total = 2, complete = 1\<rparr>,
          \<lparr>phase = AmazonPageScan, total = 2, complete = 2\<rparr>],
       io_requests =
         [''https://www.amazon.com/gp/css/order-history?disableCsd=no-js'',
          ''https://www.amazon.com/gp/css/order-history?disableCsd=no-js&startIndex=10'']\<rparr>)"
  by (simp add: amazon_pageScan_def amazon_shop_def url_defs io0_def request_def debugLog_def
      onProgress_def amazon_listing_page_def ex_docs page1_ids_def page2_ids_def
      listed_order_def orderListFromPage_def amazon_card_id_def amazon_orderLink_def
      orderID_at_def
      is_line_terminator_def js_trim_def parseInt_def chars processOrders_def upto.simps Let_def)
lemma amazon_refund_details:
  "amazon_orderDetails amazon_refund_doc ord =
     Inr (ord\<lparr>transactions :=
       Some [\<lparr>tx_id = order_id ord, tx_date = ''January 9, 2024'', amount = Num 9.99,
               refund = True, items = [amazon_socks]\<rparr>]\<rparr>)"
  by (simp add: detail_defs)

lemma amazon_shop_detail:
  "fst (fetchOrderTransactions (amazon_shop down) (listed_order i) s) =
     (if i \<in> set down then Inl network_error
      else amazon_orderDetails amazon_refund_doc (listed_order i))"
  by (auto simp: fetchOrderTransactions_def amazon_shop_def url_defs Let_def listed_order_def)

lemma walmart_shop_pageScan:
  "walmart_pageScan (walmart_shop down) None (Some 2) io0 =
     (Inr (map walmart_listed page1_ids),
      \<lparr>io_log = [],
       io_progress =
         [\<lparr>phase = WalmartPageScan, total = 1, complete = 0\<rparr>,
          \<lparr>phase = WalmartPageScan, total = 1, complete = 1\<rparr>],
       io_requests = [''https://www.walmart.com/orders'']\<rparr>)"
  by (simp add: walmart_pageScan_def walmart_shop_def url_defs io0_def request_def
      onProgress_def walmart_listing_page_def ex_docs page1_ids_def walmart_listed_def
      Walmart_orderListFromPage_def walmart_group_id_def walmart_returnLink_def orders_at_def
      date_at_def is_word_char_def is_line_terminator_def js_trim_def chars Walmart_endPage_def
      upto.simps Let_def)

lemma walmart_shop_detail:
  "\<forall>i \<in> set page1_ids.
     fst (Walmart_fetchOrderTransactions (walmart_shop [''107'']) (walmart_listed i) s) =
       (if i = ''107'' then Inl network_error
        else Inr (Walmart_orderDetails walmart_detail_doc (walmart_listed i)))"
  "\<forall>i \<in> set page1_ids.
     fst (Walmart_fetchOrderTransactions (walmart_shop []) (walmart_listed i) s) =
       Inr (Walmart_orderDetails walmart_detail_doc (walmart_listed i))"
  by (simp_all add: Walmart_fetchOrderTransactions_def walmart_shop_def url_defs Let_def
      walmart_listed_def page1_ids_def)

lemma completion_permutations:
  "mset completion13 = mset [0..<13]" "mset completion10 = mset [0..<10]"
  by (simp_all add: completion13_def completion10_def upt_rec eval_nat_numeral)

text \<open>
  Claim C2. When the page scan of \<open>fetchOrders\<close> has discovered the orders, the detail
  tasks complete in any order, and the detail fetch of exactly one of the orders throws,
  then \<open>fetchOrders\<close> returns: its result holds the details of exactly the other orders,
  one fewer than discovered; the exception is recorded by exactly one error entry of the
  log (on Walmart the only entry that the detail phase adds); and every task has
  reported its progress, the last report being \<open>N - 1\<close> complete of \<open>N\<close>.
\<close>

theorem detail_failure_is_isolated:
  "(amazon_pageScan fetch year s0 = (Inr orders, s1)
      \<and> mset schedule = mset [0..<length orders]
      \<and> length (filter (\<lambda>ord. isl (fst (fetchOrderTransactions fetch ord s1))) orders) = 1
    \<longrightarrow> \<not> isl (fst (fetchOrders fetch schedule year s0))
      \<and> length (projr (fst (fetchOrders fetch schedule year s0))) = length orders - 1
      \<and> mset (projr (fst (fetchOrders fetch schedule year s0))) =
          mset (map (\<lambda>ord. projr (fst (fetchOrderTransactions fetch ord s1)))
            (filter (\<lambda>ord. \<not> isl (fst (fetchOrderTransactions fetch ord s1))) orders))
      \<and> (\<forall>ord \<in> set orders. \<forall>e. fst (fetchOrderTransactions fetch ord s1) = Inl e \<longrightarrow>
            filter is_LogError (io_log (snd (fetchOrders fetch schedule year s0))) =
            filter is_LogError (io_log s1) @ [LogError e])
      \<and> length (io_progress (snd (fetchOrders fetch schedule year s0))) =
          length (io_progress s1) + length orders
      \<and> last (io_progress (snd (fetchOrders fetch schedule year s0))) =
          \<lparr>phase = AmazonOrderDownload, total = int (length orders),
            complete = int (length orders) - 1\<rparr>)
   \<and> (walmart_pageScan wfetch wyear maxPages ws0 = (Inr worders, ws1)
      \<and> mset wschedule = mset [0..<length worders]
      \<and> length (filter (\<lambda>ord. isl (fst (Walmart_fetchOrderTransactions wfetch ord ws1)))
            worders) = 1
    \<longrightarrow> \<not> isl (fst (Walmart_fetchOrders wfetch wschedule wyear maxPages ws0))
      \<and> length (projr (fst (Walmart_fetchOrders wfetch wschedule wyear maxPages ws0))) =
          length worders - 1
      \<and> mset (projr (fst (Walmart_fetchOrders wfetch wschedule wyear maxPages ws0))) =
          mset (map (\<lambda>ord. projr (fst (Walmart_fetchOrderTransactions wfetch ord ws1)))
            (filter (\<lambda>ord. \<not> isl (fst (Walmart_fetchOrderTransactions wfetch ord ws1))) worders))
      \<and> (\<forall>ord \<in> set worders. \<forall>e.
            fst (Walmart_fetchOrderTransactions wfetch ord ws1) = Inl e \<longrightarrow>
            io_log (snd (Walmart_fetchOrders wfetch wschedule wyear maxPages ws0)) =
            io_log ws1 @ [LogError e])
      \<and> length (io_progress (snd (Walmart_fetchOrders wfetch wschedule wyear maxPages ws0))) =
          length (io_progress ws1) + length worders
      \<and> last (io_progress (snd (Walmart_fetchOrders wfetch wschedule wyear maxPages ws0))) =
          \<lparr>phase = WalmartOrderDownload, total = int (length worders),
            complete = int (length worders) - 1\<rparr>)"
proof (rule conjI; rule impI; elim conjE)
  assume "amazon_pageScan fetch year s0 = (Inr orders, s1)"
    and "mset schedule = mset [0..<length orders]"
    and "length (filter (\<lambda>ord. isl (fst (fetchOrderTransactions fetch ord s1))) orders) = 1"
  then show "\<not> isl (fst (fetchOrders fetch schedule year s0))
      \<and> length (projr (fst (fetchOrders fetch schedule year s0))) = length orders - 1
      \<and> mset (projr (fst (fetchOrders fetch schedule year s0))) =
          mset (map (\<lambda>ord. projr (fst (fetchOrderTransactions fetch ord s1)))
            (filter (\<lambda>ord. \<not> isl (fst (fetchOrderTransactions fetch ord s1))) orders))
      \<and> (\<forall>ord \<in> set orders. \<forall>e. fst (fetchOrderTransactions fetch ord s1) = Inl e \<longrightarrow>
            filter is_LogError (io_log (snd (fetchOrders fetch schedule year s0))) =
            filter is_LogError (io_log s1) @ [LogError e])
      \<and> length (io_progress (snd (fetchOrders fetch schedule year s0))) =
          length (io_progress s1) + length orders
      \<and> last (io_progress (snd (fetchOrders fetch schedule year s0))) =
          \<lparr>phase = AmazonOrderDownload, total = int (length orders),
            complete = int (length orders) - 1\<rparr>"
    by (rule amazon_one_failure)
next
  assume "walmart_pageScan wfetch wyear maxPages ws0 = (Inr worders, ws1)"
    and "mset wschedule = mset [0..<length worders]"
    and "length (filter (\<lambda>ord. isl (fst (Walmart_fetchOrderTransactions wfetch ord ws1)))
            worders) = 1"
  then show "\<not> isl (fst (Walmart_fetchOrders wfetch wschedule wyear maxPages ws0))
      \<and> length (projr (fst (Walmart_fetchOrders wfetch wschedule wyear maxPages ws0))) =
          length worders - 1
      \<and> mset (projr (fst (Walmart_fetchOrders wfetch wschedule wyear maxPages ws0))) =
          mset (map (\<lambda>ord. projr (fst (Walmart_fetchOrderTransactions wfetch ord ws1)))
            (filter (\<lambda>ord. \<not> isl (fst (Walmart_fetchOrderTransactions wfetch ord ws1))) worders))
      \<and> (\<forall>ord \<in> set worders. \<forall>e.
            fst (Walmart_fetchOrderTransactions wfetch ord ws1) = Inl e \<longrightarrow>
            io_log (snd (Walmart_fetchOrders wfetch wschedule wyear maxPages ws0)) =
            io_log ws1 @ [LogError e])
      \<and> length (io_progress (snd (Walmart_fetchOrders wfetch wschedule wyear maxPages ws0))) =
          length (io_progress ws1) + length worders
      \<and> last (io_progress (snd (Walmart_fetchOrders wfetch wschedule wyear maxPages ws0))) =
          \<lparr>phase = WalmartOrderDownload, total = int (length worders),
            complete = int (length worders) - 1\<rparr>"
    by (rule walmart_one_failure)
qed

theorem detail_failure_is_isolated_witness:
  "length (projr (fst (fetchOrders (amazon_shop [''107'']) completion13 None io0))) = 12
   \<and> filter is_LogError
        (io_log (snd (fetchOrders (amazon_shop [''107'']) completion13 None io0))) =
      [LogError network_error]
   \<and> last (io_progress (snd (fetchOrders (amazon_shop [''107'']) completion13 None io0))) =
      \<lparr>phase = AmazonOrderDownload, total = 13, complete = 12\<rparr>
   \<and> length (projr (fst (Walmart_fetchOrders (walmart_shop [''107'']) completion10 None
        (Some 2) io0))) = 9
   \<and> io_log (snd (Walmart_fetchOrders (walmart_shop [''107'']) completion10 None (Some 2) io0)) =
      [LogError network_error]
   \<and> last (io_progress (snd (Walmart_fetchOrders (walmart_shop [''107'']) completion10 None
        (Some 2) io0))) =
      \<lparr>phase = WalmartOrderDownload, total = 10, complete = 9\<rparr>"
proof -
  define orders where "orders = map listed_order (page1_ids @ page2_ids)"
  define s1 where "s1 = snd (amazon_pageScan (amazon_shop [''107'']) None io0)"
  define worders where "worders = map walmart_listed page1_ids"
  define ws1 where "ws1 = snd (walmart_pageScan (walmart_shop [''107'']) None (Some 2) io0)"
  have scan: "amazon_pageScan (amazon_shop [''107'']) None io0 = (Inr orders, s1)"
    by (simp add: orders_def s1_def amazon_shop_pageScan)
  have wscan: "walmart_pageScan (walmart_shop [''107'']) None (Some 2) io0 = (Inr worders, ws1)"
    by (simp add: worders_def ws1_def walmart_shop_pageScan)
  have len: "length orders = 13" "length worders = 10"
    by (simp_all add: orders_def worders_def page1_ids_def page2_ids_def)
  have sched: "mset completion13 = mset [0..<length orders]"
    "mset completion10 = mset [0..<length worders]"
    unfolding len by (rule completion_permutations)+
  have one: "length (filter (\<lambda>ord. isl (fst (fetchOrderTransactions (amazon_shop [''107''])
      ord s1))) orders) = 1"
    by (simp add: orders_def page1_ids_def page2_ids_def amazon_shop_detail
        amazon_refund_details)
  have wone: "length (filter (\<lambda>ord. isl (fst (Walmart_fetchOrderTransactions
      (walmart_shop [''107'']) ord ws1))) worders) = 1"
    using walmart_shop_detail(1) [of ws1] by (simp add: worders_def page1_ids_def)
  have lg: "filter is_LogError (io_log s1) = []" "io_log ws1 = []"
    by (simp_all add: s1_def ws1_def amazon_shop_pageScan walmart_shop_pageScan)
  have bad: "listed_order ''107'' \<in> set orders"
    "fst (fetchOrderTransactions (amazon_shop [''107'']) (listed_order ''107'') s1) =
      Inl network_error"
    "walmart_listed ''107'' \<in> set worders"
    "fst (Walmart_fetchOrderTransactions (walmart_shop [''107'']) (walmart_listed ''107'') ws1) =
      Inl network_error"
    using walmart_shop_detail(1) [of ws1]
    by (simp_all add: orders_def worders_def page1_ids_def amazon_shop_detail)
  note t = detail_failure_is_isolated [where fetch = "amazon_shop [''107'']" and year = None
      and ?s0.0 = io0 and orders = orders and ?s1.0 = s1 and schedule = completion13
      and wfetch = "walmart_shop [''107'']" and wyear = None and maxPages = "Some 2"
      and ?ws0.0 = io0 and worders = worders and ?ws1.0 = ws1 and wschedule = completion10]
  from t scan sched(1) one have a:
    "length (projr (fst (fetchOrders (amazon_shop [''107'']) completion13 None io0))) =
      length orders - 1"
    "\<forall>ord \<in> set orders. \<forall>e. fst (fetchOrderTransactions (amazon_shop [''107'']) ord s1) = Inl e
      \<longrightarrow> filter is_LogError
          (io_log (snd (fetchOrders (amazon_shop [''107'']) completion13 None io0))) =
        filter is_LogError (io_log s1) @ [LogError e]"
    "last (io_progress (snd (fetchOrders (amazon_shop [''107'']) completion13 None io0))) =
      \<lparr>phase = AmazonOrderDownload, total = int (length orders),
        complete = int (length orders) - 1\<rparr>"
    by blast+
  from t wscan sched(2) wone have w:
    "length (projr (fst (Walmart_fetchOrders (walmart_shop [''107'']) completion10 None
        (Some 2) io0))) = length worders - 1"
    "\<forall>ord \<in> set worders. \<forall>e.
      fst (Walmart_fetchOrderTransactions (walmart_shop [''107'']) ord ws1) = Inl e
      \<longrightarrow> io_log (snd (Walmart_fetchOrders (walmart_shop [''107'']) completion10 None
          (Some 2) io0)) = io_log ws1 @ [LogError e]"
    "last (io_progress (snd (Walmart_fetchOrders (walmart_shop [''107'']) completion10 None
        (Some 2) io0))) =
      \<lparr>phase = WalmartOrderDownload, total = int (length worders),
        complete = int (length worders) - 1\<rparr>"
    by blast+
  show ?thesis
    using a(1,3) w(1,3) a(2) [rule_format, OF bad(1,2)] w(2) [rule_format, OF bad(3,4)]
    unfolding len lg by simp
qed

text \<open>
  Claim C4, as the code has it. Amazon's \<open>fetchOrders\<close>, which takes no \<open>maxPages\<close>,
  requests page 1 and then the pages 2 to \<open>N\<close> in order, page \<open>i\<close> with
  \<open>startIndex = (i - 1) * 10\<close>, where \<open>N\<close> is the largest number in the pagination of
  page 1 and at least 1, and the discovered orders are those of the pages in page order.
  Walmart's \<open>fetchOrders\<close> requests page 1 only, whatever \<open>maxPages\<close> is. In both, when
  every detail task succeeds on \<open>K > 0\<close> discovered orders, the result holds \<open>K\<close> orders
  and the last progress report has \<open>complete = total = K\<close>.
\<close>

theorem listing_pages_in_order:
  "(fetch (AMAZON_ORDER_PAGES_URL @ timeFilter ''&'' year) = Inr (st, Inr d)
      \<and> amazon_pageScan fetch year s0 = (Inr orders, s1)
    \<longrightarrow> io_requests s1 =
          io_requests s0 @ (AMAZON_ORDER_PAGES_URL @ timeFilter ''&'' year) #
            map (\<lambda>i. AMAZON_ORDER_PAGES_URL @ ''&startIndex='' @ Int_toString ((i - 1) * 10) @
                      timeFilter ''&'' year)
              [2..Max (insert 1 (set (page_numbers (a_pagination d))))]
      \<and> orders =
          fst (orderListFromPage d []) @
          concat (map (\<lambda>i. projr (fst (processOrders fetch year i s0)))
            [2..Max (insert 1 (set (page_numbers (a_pagination d))))]))
   \<and> (amazon_pageScan fetch year s0 = (Inr orders, s1)
      \<and> mset schedule = mset [0..<length orders]
      \<and> (\<forall>ord \<in> set orders. \<not> isl (fst (fetchOrderTransactions fetch ord s1)))
      \<and> orders \<noteq> []
    \<longrightarrow> \<not> isl (fst (fetchOrders fetch schedule year s0))
      \<and> length (projr (fst (fetchOrders fetch schedule year s0))) = length orders
      \<and> last (io_progress (snd (fetchOrders fetch schedule year s0))) =
          \<lparr>phase = AmazonOrderDownload, total = int (length orders),
            complete = int (length orders)\<rparr>)
   \<and> (walmart_pageScan wfetch wyear maxPages ws0 = (Inr worders, ws1)
    \<longrightarrow> io_requests ws1 = io_requests ws0 @ [WALMART_ORDER_PAGES_URL @ timeFilter ''?'' wyear]
      \<and> (\<forall>wst wd. wfetch (WALMART_ORDER_PAGES_URL @ timeFilter ''?'' wyear) = Inr (wst, Inr wd)
            \<longrightarrow> worders = fst (Walmart_orderListFromPage wd [])))
   \<and> (walmart_pageScan wfetch wyear maxPages ws0 = (Inr worders, ws1)
      \<and> mset wschedule = mset [0..<length worders]
      \<and> (\<forall>ord \<in> set worders. \<not> isl (fst (Walmart_fetchOrderTransactions wfetch ord ws1)))
      \<and> worders \<noteq> []
    \<longrightarrow> \<not> isl (fst (Walmart_fetchOrders wfetch wschedule wyear maxPages ws0))
      \<and> length (projr (fst (Walmart_fetchOrders wfetch wschedule wyear maxPages ws0))) =
          length worders
      \<and> last (io_progress (snd (Walmart_fetchOrders wfetch wschedule wyear maxPages ws0))) =
          \<lparr>phase = WalmartOrderDownload, total = int (length worders),
            complete = int (length worders)\<rparr>)"
proof (intro conjI impI; (elim conjE)?)
  assume "fetch (AMAZON_ORDER_PAGES_URL @ timeFilter ''&'' year) = Inr (st, Inr d)"
    and "amazon_pageScan fetch year s0 = (Inr orders, s1)"
  note r = amazon_pageScan_result [OF this]
  show "io_requests s1 =
      io_requests s0 @ (AMAZON_ORDER_PAGES_URL @ timeFilter ''&'' year) #
        map (\<lambda>i. AMAZON_ORDER_PAGES_URL @ ''&startIndex='' @ Int_toString ((i - 1) * 10) @
                  timeFilter ''&'' year)
          [2..Max (insert 1 (set (page_numbers (a_pagination d))))]"
    using r(1) by (simp add: processOrders_url_def [abs_def])
  show "orders =
      fst (orderListFromPage d []) @
      concat (map (\<lambda>i. projr (fst (processOrders fetch year i s0)))
        [2..Max (insert 1 (set (page_numbers (a_pagination d))))])"
    by (rule r(2))
next
  assume a: "amazon_pageScan fetch year s0 = (Inr orders, s1)"
    "mset schedule = mset [0..<length orders]"
    "\<forall>ord \<in> set orders. \<not> isl (fst (fetchOrderTransactions fetch ord s1))"
    "orders \<noteq> []"
  note r = amazon_all_succeed [OF a]
  show "\<not> isl (fst (fetchOrders fetch schedule year s0))"
    "length (projr (fst (fetchOrders fetch schedule year s0))) = length orders"
    "last (io_progress (snd (fetchOrders fetch schedule year s0))) =
      \<lparr>phase = AmazonOrderDownload, total = int (length orders),
        complete = int (length orders)\<rparr>"
    using r by blast+
next
  assume "walmart_pageScan wfetch wyear maxPages ws0 = (Inr worders, ws1)"
  note r = walmart_pageScan_result [OF this]
  show "io_requests ws1 = io_requests ws0 @ [WALMART_ORDER_PAGES_URL @ timeFilter ''?'' wyear]"
    by (rule r(1))
  show "\<forall>wst wd. wfetch (WALMART_ORDER_PAGES_URL @ timeFilter ''?'' wyear) = Inr (wst, Inr wd)
      \<longrightarrow> worders = fst (Walmart_orderListFromPage wd [])"
    by (rule r(2))
next
  assume a: "walmart_pageScan wfetch wyear maxPages ws0 = (Inr worders, ws1)"
    "mset wschedule = mset [0..<length worders]"
    "\<forall>ord \<in> set worders. \<not> isl (fst (Walmart_fetchOrderTransactions wfetch ord ws1))"
    "worders \<noteq> []"
  note r = walmart_all_succeed [OF a]
  show "\<not> isl (fst (Walmart_fetchOrders wfetch wschedule wyear maxPages ws0))"
    "length (projr (fst (Walmart_fetchOrders wfetch wschedule wyear maxPages ws0))) =
      length worders"
    "last (io_progress (snd (Walmart_fetchOrders wfetch wschedule wyear maxPages ws0))) =
      \<lparr>phase = WalmartOrderDownload, total = int (length worders),
        complete = int (length worders)\<rparr>"
    using r by blast+
qed

theorem listing_pages_in_order_witness:
  "io_requests (snd (amazon_pageScan (amazon_shop []) None io0)) =
      [''https://www.amazon.com/gp/css/order-history?disableCsd=no-js'',
       ''https://www.amazon.com/gp/css/order-history?disableCsd=no-js&startIndex=10'']
   \<and> fst (amazon_pageScan (amazon_shop []) None io0) =
      Inr (map listed_order (page1_ids @ page2_ids))
   \<and> length (projr (fst (fetchOrders (amazon_shop []) completion13 None io0))) = 13
   \<and> last (io_progress (snd (fetchOrders (amazon_shop []) completion13 None io0))) =
      \<lparr>phase = AmazonOrderDownload, total = 13, complete = 13\<rparr>
   \<and> io_requests (snd (walmart_pageScan (walmart_shop []) None (Some 2) io0)) =
      [''https://www.walmart.com/orders'']
   \<and> fst (walmart_pageScan (walmart_shop []) None (Some 2) io0) =
      Inr (map walmart_listed page1_ids)
   \<and> length (projr (fst (Walmart_fetchOrders (walmart_shop []) completion10 None (Some 2) io0)))
      = 10
   \<and> last (io_progress (snd (Walmart_fetchOrders (walmart_shop []) completion10 None (Some 2)
        io0))) =
      \<lparr>phase = WalmartOrderDownload, total = 10, complete = 10\<rparr>"
proof -
  define orders where "orders = map listed_order (page1_ids @ page2_ids)"
  define s1 where "s1 = snd (amazon_pageScan (amazon_shop []) None io0)"
  define worders where "worders = map walmart_listed page1_ids"
  define ws1 where "ws1 = snd (walmart_pageScan (walmart_shop []) None (Some 2) io0)"
  have scan: "amazon_pageScan (amazon_shop []) None io0 = (Inr orders, s1)"
    by (simp add: orders_def s1_def amazon_shop_pageScan)
  have wscan: "walmart_pageScan (walmart_shop []) None (Some 2) io0 = (Inr worders, ws1)"
    by (simp add: worders_def ws1_def walmart_shop_pageScan)
  have f: "amazon_shop [] (AMAZON_ORDER_PAGES_URL @ timeFilter ''&'' None) =
      Inr (200, Inr (amazon_listing_page page1_ids))"
    by (simp add: amazon_shop_def timeFilter_def)
  have len: "length orders = 13"
    by (simp add: orders_def page1_ids_def page2_ids_def)
  have ne: "orders \<noteq> []" using len by auto
  have wlen: "length worders = 10"
    by (simp add: worders_def page1_ids_def)
  have wne: "worders \<noteq> []" using wlen by auto
  have wsched: "mset completion10 = mset [0..<length worders]"
    unfolding wlen by (rule completion_permutations)
  have wok: "\<forall>ord \<in> set worders.
      \<not> isl (fst (Walmart_fetchOrderTransactions (walmart_shop []) ord ws1))"
    using walmart_shop_detail(2) [of ws1] by (simp add: worders_def)
  have sched: "mset completion13 = mset [0..<length orders]"
    unfolding len by (rule completion_permutations)
  have ok: "\<forall>ord \<in> set orders. \<not> isl (fst (fetchOrderTransactions (amazon_shop []) ord s1))"
    by (simp add: orders_def page1_ids_def page2_ids_def amazon_shop_detail
        amazon_refund_details)
  have pn: "Max (insert 1 (set (page_numbers (a_pagination (amazon_listing_page page1_ids))))) = 2"
    by (simp add: amazon_listing_page_def ex_docs js_trim_def parseInt_def chars)
  have io: "io_requests io0 = []" by (simp add: io0_def)
  note t = listing_pages_in_order [where fetch = "amazon_shop []" and year = None
      and st = 200 and d = "amazon_listing_page page1_ids"
      and ?s0.0 = io0 and orders = orders and ?s1.0 = s1 and schedule = completion13
      and wfetch = "walmart_shop []" and wyear = None and maxPages = "Some 2"
      and ?ws0.0 = io0 and worders = worders and ?ws1.0 = ws1 and wschedule = completion10]
  from t f scan have a: "io_requests s1 =
      io_requests io0 @ (AMAZON_ORDER_PAGES_URL @ timeFilter ''&'' None) #
        map (\<lambda>i. AMAZON_ORDER_PAGES_URL @ ''&startIndex='' @ Int_toString ((i - 1) * 10) @
                  timeFilter ''&'' None)
          [2..Max (insert 1 (set (page_numbers (a_pagination (amazon_listing_page page1_ids)))))]"
    by blast
  from t scan sched ok ne have b:
    "length (projr (fst (fetchOrders (amazon_shop []) completion13 None io0))) = length orders"
    "last (io_progress (snd (fetchOrders (amazon_shop []) completion13 None io0))) =
      \<lparr>phase = AmazonOrderDownload, total = int (length orders),
        complete = int (length orders)\<rparr>"
    by blast+
  from t wscan have c:
    "io_requests ws1 = io_requests io0 @ [WALMART_ORDER_PAGES_URL @ timeFilter ''?'' None]"
    by blast
  from t wscan wsched wok wne have e:
    "length (projr (fst (Walmart_fetchOrders (walmart_shop []) completion10 None (Some 2) io0)))
      = length worders"
    "last (io_progress (snd (Walmart_fetchOrders (walmart_shop []) completion10 None (Some 2)
        io0))) =
      \<lparr>phase = WalmartOrderDownload, total = int (length worders),
        complete = int (length worders)\<rparr>"
    by blast+
  have "io_requests s1 =
      [''https://www.amazon.com/gp/css/order-history?disableCsd=no-js'',
       ''https://www.amazon.com/gp/css/order-history?disableCsd=no-js&startIndex=10'']"
    unfolding a pn io by (simp add: url_defs upto.simps)
  moreover have "io_requests ws1 = [''https://www.walmart.com/orders'']"
    unfolding c io by (simp add: url_defs)
  ultimately show ?thesis
    using b e scan wscan unfolding len wlen
    by (simp add: s1_def [symmetric] ws1_def [symmetric] orders_def worders_def)
qed

text \<open>
  Claim C4 as stated fails on Walmart's \<open>fetchOrders\<close>: with \<open>maxPages = 2\<close> and a listing
  of ten and three entries only the first page is requested, and the last progress report
  is 10 of 10.
\<close>

theorem Walmart_fetches_one_page:
  "io_requests (snd (walmart_pageScan (walmart_shop []) None (Some 2) io0)) =
      [''https://www.walmart.com/orders'']
   \<and> length (projr (fst (Walmart_fetchOrders (walmart_shop []) completion10 None (Some 2) io0)))
      = 10
   \<and> last (io_progress (snd (Walmart_fetchOrders (walmart_shop []) completion10 None (Some 2)
        io0))) =
      \<lparr>phase = WalmartOrderDownload, total = 10, complete = 10\<rparr>
   \<and> last (io_progress (snd (Walmart_fetchOrders (walmart_shop []) completion10 None (Some 2)
        io0))) \<noteq>
      \<lparr>phase = WalmartOrderDownload, total = 13, complete = 13\<rparr>"
proof -
  define worders where "worders = map walmart_listed page1_ids"
  define ws1 where "ws1 = snd (walmart_pageScan (walmart_shop []) None (Some 2) io0)"
  have wscan: "walmart_pageScan (walmart_shop []) None (Some 2) io0 = (Inr worders, ws1)"
    by (simp add: worders_def ws1_def walmart_shop_pageScan)
  have len: "length worders = 10"
    by (simp add: worders_def page1_ids_def)
  have ne: "worders \<noteq> []" using len by auto
  have sched: "mset completion10 = mset [0..<length worders]"
    unfolding len by (rule completion_permutations)
  have ok: "\<forall>ord \<in> set worders.
      \<not> isl (fst (Walmart_fetchOrderTransactions (walmart_shop []) ord ws1))"
    using walmart_shop_detail(2) [of ws1] by (simp add: worders_def)
  have rq: "io_requests ws1 = [''https://www.walmart.com/orders'']"
    by (simp add: ws1_def walmart_shop_pageScan)
  show ?thesis
    using walmart_all_succeed [OF wscan sched ok ne] rq
    unfolding len by (simp add: ws1_def)
qed

end
